theory Spec2Isabelle
  imports Complex_Main "HOL-Library.AList" "HOL-Library.Multiset" "HOL-Library.Word"
begin

section \<open>Data model of the worker engine\<close>

text \<open>
  The embedding follows \<^verbatim>\<open>dvm_miner/engine.py\<close>, \<^verbatim>\<open>dvm_miner/node.py\<close>,
  \<^verbatim>\<open>shared/protocol/messages.py\<close> and \<^verbatim>\<open>shared/protocol/serialization.py\<close>.

  Python integers are unbounded: \<open>int\<close>. A Python \<open>dict\<close> keeps insertion order and
  has one value per key: an association list read with \<open>map_of\<close> and written with
  \<open>AList.update\<close> (replace in place, or append the new key). Vector components are
  \<open>real\<close>: rounding and the infinities of float32 are not part of the model. The
  distances that the index kernel reports, and the scores computed from them, are a
  number or NaN. Exceptions are values of the type \<open>error\<close>.
\<close>

datatype error =
    DimensionMismatch int int  \<comment> \<open>\<^verbatim>\<open>ValueError("Vector dimension mismatch: a != b")\<close>\<close>
  | CountMismatch int int      \<comment> \<open>\<^verbatim>\<open>ValueError("Doc IDs count mismatch: a != b")\<close>\<close>
  | KernelError                \<comment> \<open>\<^verbatim>\<open>RuntimeError\<close> raised by the index kernel\<close>
  | KeyError                   \<comment> \<open>a missing dictionary key\<close>
  | OverflowError              \<comment> \<open>\<^verbatim>\<open>int.to_bytes\<close> out of range, a quotient too large for a float\<close>
  | ValueError                 \<comment> \<open>any other \<^verbatim>\<open>ValueError\<close>\<close>
  | ValidationError            \<comment> \<open>a message that does not fit its pydantic model\<close>
  | CodecError                 \<comment> \<open>base64 or zstandard refusing its input\<close>

type_synonym vec = "real list"

text \<open>
  The index kernel (hnswlib) is an external library. The model keeps what the engine
  relies on: the labelled vectors in insertion order, the capacity fixed by
  \<^verbatim>\<open>init_index(max_elements=...)\<close> and the element count.
\<close>

record hnsw_index =
  index_dim :: int
  max_elements :: int
  index_items :: "(int \<times> vec) list"

definition get_current_count :: "hnsw_index \<Rightarrow> int" where
  "get_current_count idx = int (length (index_items idx))"

text \<open>
  \<^verbatim>\<open>self.indices\<close>, \<^verbatim>\<open>self.id_maps\<close>, \<^verbatim>\<open>self.next_ids\<close> and \<^verbatim>\<open>self.locks\<close>:
  collection id, then shard id. A lock carries no data here; \<open>locks\<close> records for which
  shards one has been created.
\<close>

record engine =
  embedding_dim :: int
  max_bytes :: int
  indices :: "(string \<times> (string \<times> hnsw_index) list) list"
  id_maps :: "(string \<times> (string \<times> (int \<times> string) list) list) list"
  next_ids :: "(string \<times> (string \<times> int) list) list"
  locks :: "(string \<times> string list) list"

text \<open>\<^verbatim>\<open>VectorEngine.__init__\<close> on an empty data directory: nothing is loaded.\<close>

definition new_engine :: "int \<Rightarrow> int \<Rightarrow> engine" where
  "new_engine d max_ram_gb =
     \<lparr>embedding_dim = d, max_bytes = max_ram_gb * 1024 ^ 3,
      indices = [], id_maps = [], next_ids = [], locks = []\<rparr>"

subsection \<open>Capacity\<close>

text \<open>
  \<^verbatim>\<open>get_total_vectors\<close> adds \<^verbatim>\<open>index.get_current_count()\<close> over every shard of every
  collection. The guard \<^verbatim>\<open>if index:\<close> of the source skips no index: an index object is
  truthy.
\<close>

definition get_total_vectors :: "engine \<Rightarrow> int" where
  "get_total_vectors e =
     sum_list (map (\<lambda>collection_shards.
        sum_list (map (\<lambda>index. get_current_count index) (map snd collection_shards)))
       (map snd (indices e)))"

definition get_bytes_used :: "engine \<Rightarrow> int" where
  "get_bytes_used e = get_total_vectors e * embedding_dim e * 4"

definition can_accept :: "engine \<Rightarrow> int \<Rightarrow> bool" where
  "can_accept e num_vectors =
     (let bytes_needed = num_vectors * embedding_dim e * 4
      in get_bytes_used e + bytes_needed \<le> max_bytes e)"

subsection \<open>Two-level dictionaries\<close>

definition lookup2 :: "(string \<times> (string \<times> 'a) list) list \<Rightarrow> string \<Rightarrow> string \<Rightarrow> 'a option" where
  "lookup2 m collection_id shard = (case map_of m collection_id of
       None \<Rightarrow> None
     | Some shards \<Rightarrow> map_of shards shard)"

text \<open>\<^verbatim>\<open>m[collection_id][shard] = v\<close>: a \<^verbatim>\<open>KeyError\<close> (here \<open>None\<close>) when
  \<^verbatim>\<open>m[collection_id]\<close> is missing.\<close>

definition store2 ::
  "(string \<times> (string \<times> 'a) list) list \<Rightarrow> string \<Rightarrow> string \<Rightarrow> 'a
     \<Rightarrow> (string \<times> (string \<times> 'a) list) list option" where
  "store2 m collection_id shard v = (case map_of m collection_id of
       None \<Rightarrow> None
     | Some shards \<Rightarrow> Some (AList.update collection_id (AList.update shard v shards) m))"

text \<open>A change made in place to the object stored at \<^verbatim>\<open>m[collection_id][shard]\<close>,
  once the source has read that entry.\<close>

definition replace2 ::
  "(string \<times> (string \<times> 'a) list) list \<Rightarrow> string \<Rightarrow> string \<Rightarrow> ('a \<Rightarrow> 'a)
     \<Rightarrow> (string \<times> (string \<times> 'a) list) list" where
  "replace2 m collection_id shard f =
     AList.map_entry collection_id (AList.map_entry shard f) m"

subsection \<open>Shard addressing and locks\<close>

text \<open>\<^verbatim>\<open>return shard_id if shard_id else "default"\<close>: \<^verbatim>\<open>None\<close> and the empty string
  are both falsy.\<close>

definition normalize_shard_id :: "string option \<Rightarrow> string" where
  "normalize_shard_id shard_id = (case shard_id of
       None \<Rightarrow> ''default''
     | Some s \<Rightarrow> if s = [] then ''default'' else s)"

definition get_lock :: "engine \<Rightarrow> string \<Rightarrow> string option \<Rightarrow> engine" where
  "get_lock e collection_id shard_id =
     (let normalized_shard = normalize_shard_id shard_id;
          shard_locks = (case map_of (locks e) collection_id of None \<Rightarrow> [] | Some l \<Rightarrow> l);
          shard_locks' = (if normalized_shard \<in> set shard_locks then shard_locks
                          else shard_locks @ [normalized_shard])
      in e\<lparr>locks := AList.update collection_id shard_locks' (locks e)\<rparr>)"

subsection \<open>Adding vectors\<close>

text \<open>A two-dimensional numpy array: \<open>shape1\<close> is \<^verbatim>\<open>vectors.shape[1]\<close>, the row count
  is \<^verbatim>\<open>vectors.shape[0]\<close>. Every row of an array has \<open>shape1\<close> entries.\<close>

record ndarray =
  shape1 :: int
  rows :: "vec list"

definition shape0 :: "ndarray \<Rightarrow> int" where
  "shape0 a = int (length (rows a))"

definition wf_ndarray :: "ndarray \<Rightarrow> bool" where
  "wf_ndarray a = (0 \<le> shape1 a \<and> list_all (\<lambda>r. int (length r) = shape1 a) (rows a))"

definition l2_norm :: "vec \<Rightarrow> real" where
  "l2_norm v = sqrt (sum_list (map (\<lambda>x. x * x) v))"

text \<open>\<^verbatim>\<open>norms[norms == 0] = 1; normalized_vectors = vectors / norms\<close>, row by row.\<close>

definition normalize_row :: "vec \<Rightarrow> vec" where
  "normalize_row v =
     (let norm = l2_norm v; norm' = (if norm = 0 then 1 else norm)
      in map (\<lambda>x. x / norm') v)"

text \<open>
  \<^verbatim>\<open>index.add_items(data, ids)\<close> of the kernel: a label already present has its vector
  replaced; a new label is appended unless the index is full, in which case the kernel
  raises and keeps what it has inserted so far.
\<close>

fun add_items :: "hnsw_index \<Rightarrow> (vec \<times> int) list \<Rightarrow> error option \<times> hnsw_index" where
  "add_items idx [] = (None, idx)"
| "add_items idx ((v, label) # rest) =
     (if label \<notin> fst ` set (index_items idx) \<and> max_elements idx \<le> get_current_count idx
      then (Some KernelError, idx)
      else add_items (idx\<lparr>index_items := AList.update label v (index_items idx)\<rparr>) rest)"

text \<open>\<^verbatim>\<open>hnswlib.Index(space="cosine", dim=...)\<close> followed by
  \<^verbatim>\<open>init_index(max_elements=1000000, ...)\<close>.\<close>

definition init_index :: "int \<Rightarrow> hnsw_index" where
  "init_index d = \<lparr>index_dim = d, max_elements = 1000000, index_items = []\<rparr>"

text \<open>The block \<^verbatim>\<open>if collection_id not in self.indices\<close>.\<close>

definition ensure_collection :: "engine \<Rightarrow> string \<Rightarrow> engine" where
  "ensure_collection e collection_id =
     (if collection_id \<notin> fst ` set (indices e)
      then e\<lparr>indices := AList.update collection_id [] (indices e),
             id_maps := AList.update collection_id [] (id_maps e),
             next_ids := AList.update collection_id [] (next_ids e)\<rparr>
      else e)"

text \<open>The block \<^verbatim>\<open>if normalized_shard not in self.indices[collection_id]\<close>: three
  assignments in the order of the source, each a \<^verbatim>\<open>KeyError\<close> when its collection entry
  is missing, with the earlier assignments kept.\<close>

definition ensure_shard :: "engine \<Rightarrow> string \<Rightarrow> string \<Rightarrow> error option \<times> engine" where
  "ensure_shard e collection_id normalized_shard =
     (case map_of (indices e) collection_id of
        None \<Rightarrow> (Some KeyError, e)
      | Some shards \<Rightarrow>
         (if normalized_shard \<in> fst ` set shards then (None, e)
          else
           (let index = init_index (embedding_dim e);
                e1 = e\<lparr>indices := AList.update collection_id
                                     (AList.update normalized_shard index shards) (indices e)\<rparr>
            in case store2 (id_maps e1) collection_id normalized_shard [] of
                 None \<Rightarrow> (Some KeyError, e1)
               | Some im \<Rightarrow>
                  (let e2 = e1\<lparr>id_maps := im\<rparr>
                   in (case store2 (next_ids e2) collection_id normalized_shard 0 of
                        None \<Rightarrow> (Some KeyError, e2)
                      | Some ni \<Rightarrow> (None, e2\<lparr>next_ids := ni\<rparr>))))))"

text \<open>
  The rest of the locked block: normalise, take \<open>start_id\<close>, add to the index, write
  the id map entry by entry, advance the counter. The id map of the shard is looked up
  only when there is an entry to write.
\<close>

definition insert_batch ::
  "engine \<Rightarrow> string \<Rightarrow> string \<Rightarrow> ndarray \<Rightarrow> string list \<Rightarrow> error option \<times> engine" where
  "insert_batch e collection_id normalized_shard vectors doc_ids =
     (case lookup2 (indices e) collection_id normalized_shard of
        None \<Rightarrow> (Some KeyError, e)
      | Some index \<Rightarrow>
         (let normalized_vectors = map normalize_row (rows vectors)
          in case lookup2 (next_ids e) collection_id normalized_shard of
               None \<Rightarrow> (Some KeyError, e)
             | Some start_id \<Rightarrow>
                (let internal_ids = map (\<lambda>i. start_id + int i) [0..<length doc_ids];
                     (failure, index') = add_items index (zip normalized_vectors internal_ids);
                     e1 = e\<lparr>indices := replace2 (indices e) collection_id normalized_shard
                                            (\<lambda>_. index')\<rparr>;
                     bump = (\<lambda>s. s\<lparr>next_ids := replace2 (next_ids s) collection_id
                               normalized_shard (\<lambda>n. n + int (length doc_ids))\<rparr>)
                 in case failure of
                      Some err \<Rightarrow> (Some err, e1)
                    | None \<Rightarrow>
                       (if zip internal_ids doc_ids = [] then (None, bump e1)
                        else (case lookup2 (id_maps e1) collection_id normalized_shard of
                            None \<Rightarrow> (Some KeyError, e1)
                          | Some _ \<Rightarrow>
                              (None, bump (e1\<lparr>id_maps := replace2 (id_maps e1) collection_id
                                 normalized_shard (AList.updates internal_ids doc_ids)\<rparr>)))))))"

text \<open>\<^verbatim>\<open>VectorEngine.add_vectors\<close>. The result is the exception raised, if any, and the
  engine as the call leaves it.\<close>

definition add_vectors ::
  "engine \<Rightarrow> string \<Rightarrow> ndarray \<Rightarrow> string list \<Rightarrow> string option \<Rightarrow> error option \<times> engine" where
  "add_vectors e collection_id vectors doc_ids shard_id =
     (if shape1 vectors \<noteq> embedding_dim e
      then (Some (DimensionMismatch (shape1 vectors) (embedding_dim e)), e)
      else if int (length doc_ids) \<noteq> shape0 vectors
      then (Some (CountMismatch (int (length doc_ids)) (shape0 vectors)), e)
      else
        let normalized_shard = normalize_shard_id shard_id;
            e1 = get_lock e collection_id shard_id;
            e2 = ensure_collection e1 collection_id
        in case ensure_shard e2 collection_id normalized_shard of
             (Some err, e3) \<Rightarrow> (Some err, e3)
           | (None, e3) \<Rightarrow> insert_batch e3 collection_id normalized_shard vectors doc_ids)"

subsection \<open>Searching\<close>

text \<open>
  Distances and scores are Python floats. What matters of a float here is whether it
  is a number or NaN: every comparison with NaN is false. Rounding and the infinities
  are not modelled.
\<close>

datatype pyfloat = Number real | NaN

text \<open>\<^verbatim>\<open>1.0 - distance\<close> and \<^verbatim>\<open>a >= b\<close>.\<close>

definition similarity :: "pyfloat \<Rightarrow> pyfloat" where
  "similarity distance = (case distance of Number d \<Rightarrow> Number (1 - d) | NaN \<Rightarrow> NaN)"


definition number :: "pyfloat \<Rightarrow> real" where
  "number a = (case a of Number x \<Rightarrow> x | NaN \<Rightarrow> 0)"

text \<open>
  \<^verbatim>\<open>index.knn_query(query, k)\<close> is the approximate search of the external kernel. It
  is a parameter of the model: a function from the index, the query and \<open>k\<close> to the
  exception it raises or to the list of \<open>(label, distance)\<close> pairs it returns
  (\<^verbatim>\<open>zip(labels[0], distances[0])\<close>).
\<close>

type_synonym knn_query = "hnsw_index \<Rightarrow> vec \<Rightarrow> int \<Rightarrow> error + (int \<times> pyfloat) list"

type_synonym results = "(string \<times> pyfloat) list"

text \<open>The loop that converts hits to results: \<^verbatim>\<open>id_map.get(int(label))\<close>, and
  \<^verbatim>\<open>if doc_id:\<close> is false for \<^verbatim>\<open>None\<close> and for the empty string.\<close>

fun convert_hits :: "(int \<times> string) list \<Rightarrow> (int \<times> pyfloat) list \<Rightarrow> results" where
  "convert_hits id_map [] = []"
| "convert_hits id_map ((label, distance) # hits) =
     (case map_of id_map label of
        None \<Rightarrow> convert_hits id_map hits
      | Some doc_id \<Rightarrow>
          if doc_id \<noteq> [] then (doc_id, similarity distance) # convert_hits id_map hits
          else convert_hits id_map hits)"

text \<open>
  \<^verbatim>\<open>results.sort(key=lambda x: x[1], reverse=True)\<close>. When every score is a number
  this is the stable sort by descending score (equal scores keep their order). With a
  NaN among the scores the comparisons are not an order, and what \<^verbatim>\<open>list.sort\<close> leaves
  depends on its internals: it is some permutation of the list. That permutation is the
  parameter \<open>nan_order\<close>, used only in this case and only if it permutes its argument.
\<close>

definition sort_results :: "(results \<Rightarrow> results) \<Rightarrow> results \<Rightarrow> results" where
  "sort_results nan_order rs =
     (if list_all (\<lambda>r. snd r \<noteq> NaN) rs then rev (sort_key (\<lambda>r. number (snd r)) (rev rs))
      else if mset (nan_order rs) = mset rs then nan_order rs
      else rs)"

text \<open>\<^verbatim>\<open>VectorEngine.search\<close>. The result is the exception raised or the list returned,
  and the engine as the call leaves it (\<^verbatim>\<open>_get_lock\<close> may add a lock).\<close>

definition search ::
  "knn_query \<Rightarrow> (results \<Rightarrow> results) \<Rightarrow> engine \<Rightarrow> string \<Rightarrow> vec \<Rightarrow> int \<Rightarrow> string option
     \<Rightarrow> (error + results) \<times> engine" where
  "search knn nan_order e collection_id query_vector k shard_id =
     (let normalized_shard = normalize_shard_id shard_id
      in case map_of (indices e) collection_id of
           None \<Rightarrow> (Inr [], e)
         | Some shards \<Rightarrow>
            (case map_of shards normalized_shard of
               None \<Rightarrow> (Inr [], e)
             | Some index \<Rightarrow>
                (if k \<le> 0 then (Inr [], e)
                 else
                  (let e1 = get_lock e collection_id shard_id
                   in if get_current_count index = 0 then (Inr [], e1)
                      else
                       (let norm = l2_norm query_vector
                        in if norm = 0 then (Inr [], e1)
                           else
                            (let normalized_query = map (\<lambda>x. x / norm) query_vector
                             in (case knn index normalized_query (min k (get_current_count index)) of
                                   Inl err \<Rightarrow> (Inl err, e1)
                                 | Inr hits \<Rightarrow>
                                    (case lookup2 (id_maps e1) collection_id normalized_shard of
                                       None \<Rightarrow> (Inl KeyError, e1)
                                     | Some id_map \<Rightarrow>
                                         (Inr (sort_results nan_order (convert_hits id_map hits)),
                                          e1)))))))))"

subsection \<open>Reference kernels and two small engines\<close>

text \<open>
  To run the engine on concrete inputs a kernel is needed. \<open>exact_knn\<close> is the exhaustive
  search: the \<open>k\<close> stored items nearest to the query by cosine distance (for unit
  vectors, one minus the inner product), nearest first.
\<close>

definition cosine_distance :: "vec \<Rightarrow> vec \<Rightarrow> real" where
  "cosine_distance q v = 1 - sum_list (map2 (*) q v)"

definition exact_knn :: knn_query where
  "exact_knn index q k =
     Inr (map (\<lambda>(label, d). (label, Number d)) (take (nat k) (sort_key snd
        (map (\<lambda>(label, v). (label, cosine_distance q v)) (index_items index)))))"

text \<open>A kernel whose search always raises.\<close>

definition failing_knn :: knn_query where
  "failing_knn index q k = Inl KernelError"


definition left_as_is :: "results \<Rightarrow> results" where
  "left_as_is rs = rs"

text \<open>Three unit vectors \<open>a\<close>, \<open>b\<close>, \<open>c\<close> in collection \<open>c1\<close>, dimension 4.\<close>

definition scenario1 :: engine where
  "scenario1 = snd (add_vectors (new_engine 4 1) ''c1''
      \<lparr>shape1 = 4, rows = [[1, 0, 0, 0], [0, 1, 0, 0], [0, 0, 1, 0]]\<rparr>
      [''a'', ''b'', ''c''] None)"

text \<open>One vector stored under the empty document id.\<close>

definition unnamed_doc :: engine where
  "unnamed_doc = snd (add_vectors (new_engine 4 1) ''c1''
      \<lparr>shape1 = 4, rows = [[1, 0, 0, 0]]\<rparr> [''''] None)"

subsection \<open>Engines reachable by adding vectors\<close>

text \<open>The engines that a sequence of \<^verbatim>\<open>add_vectors\<close> calls, failed ones included,
  produces from an engine started on an empty data directory.\<close>

inductive reachable :: "engine \<Rightarrow> bool" where
  start: "reachable (new_engine d max_ram_gb)"
| step: "reachable e \<Longrightarrow> reachable (snd (add_vectors e collection_id vectors doc_ids shard_id))"

text \<open>The invariant carried through the calls: a collection known to \<open>indices\<close> is
  known to \<open>id_maps\<close> and \<open>next_ids\<close>, and a shard with an index has an id map whose
  keys are exactly \<open>0, ..., next_id - 1\<close>.\<close>

definition shard_inv :: "engine \<Rightarrow> bool" where
  "shard_inv e = (\<forall>c.
     (map_of (indices e) c \<noteq> None \<longrightarrow> map_of (id_maps e) c \<noteq> None \<and> map_of (next_ids e) c \<noteq> None)
   \<and> (\<forall>s. lookup2 (indices e) c s \<noteq> None \<longrightarrow>
         (\<exists>m n. lookup2 (id_maps e) c s = Some m \<and> lookup2 (next_ids e) c s = Some n
            \<and> 0 \<le> n \<and> distinct (map fst m) \<and> fst ` set m = {0..<n})))"


section \<open>Persistence\<close>

text \<open>
  The data directory, as far as \<^verbatim>\<open>save_all\<close> and \<^verbatim>\<open>load_all\<close> touch it: the directories
  below it and the files, both by their path relative to the data directory, in listing
  order. A path is the text that \<^verbatim>\<open>pathlib\<close> joins with \<open>/\<close>; its normalisation of
  empty and \<open>.\<close> components and of absolute paths is not modelled, file names are
  compared exactly, and writing a file fails only for a missing parent directory or a
  directory in its place.

  A file is what the engine writes: the serialised index of the kernel, or the JSON
  document \<^verbatim>\<open>{"id_map": {...}, "next_id": n}\<close> with its keys already read back by
  \<^verbatim>\<open>int(k)\<close>; anything else is \<open>OtherFile\<close>.
\<close>

datatype disk_file =
    IndexFile hnsw_index
  | MapFile "(int \<times> string) list" "int option"
  | OtherFile

record data_dir =
  dirs :: "string list"
  files :: "(string \<times> disk_file) list"

definition empty_dir :: data_dir where
  "empty_dir = \<lparr>dirs = [], files = []\<rparr>"

definition starts_with :: "string \<Rightarrow> string \<Rightarrow> bool" where
  "starts_with p s = (take (length p) s = p)"

definition ends_with :: "string \<Rightarrow> string \<Rightarrow> bool" where
  "ends_with q s = (length q \<le> length s \<and> drop (length s - length q) s = q)"

text \<open>\<^verbatim>\<open>s.replace(old, "")\<close> for a nonempty \<open>old\<close>: every occurrence, found from the
  left without overlap, is removed.\<close>

function remove_all :: "string \<Rightarrow> string \<Rightarrow> string" where
  "remove_all old [] = []"
| "remove_all old (c # s) =
     (if old \<noteq> [] \<and> starts_with old (c # s) then remove_all old (drop (length old) (c # s))
      else c # remove_all old s)"
  by pat_completeness auto
termination
  by (relation "measure (\<lambda>(old, s). length s)") (auto simp: starts_with_def)

text \<open>\<^verbatim>\<open>data_dir / name\<close> and, below a directory, \<^verbatim>\<open>directory / name\<close>. The data
  directory itself is the empty path.\<close>

definition join :: "string \<Rightarrow> string \<Rightarrow> string" where
  "join directory name = (if directory = [] then name else directory @ ''/'' @ name)"

definition parent :: "string \<Rightarrow> string" where
  "parent p = rev (drop 1 (dropWhile (\<lambda>c. c \<noteq> CHR ''/'') (rev p)))"

text \<open>The name of \<open>p\<close> when \<open>p\<close> lies directly in \<open>directory\<close>.\<close>

definition child_name :: "string \<Rightarrow> string \<Rightarrow> string option" where
  "child_name directory p =
     (let pre = (if directory = [] then [] else directory @ ''/'');
          name = drop (length pre) p
      in if starts_with pre p \<and> name \<noteq> [] \<and> CHR ''/'' \<notin> set name then Some name else None)"

text \<open>The entries of a directory: its files with their content, then its
  subdirectories.\<close>

definition listdir :: "data_dir \<Rightarrow> string \<Rightarrow> (string \<times> disk_file option) list" where
  "listdir fs directory =
     List.map_filter (\<lambda>(p, f). map_option (\<lambda>name. (name, Some f)) (child_name directory p))
       (files fs)
     @ List.map_filter (\<lambda>p. map_option (\<lambda>name. (name, None)) (child_name directory p))
       (dirs fs)"

definition exists_path :: "data_dir \<Rightarrow> string \<Rightarrow> bool" where
  "exists_path fs p = (p \<in> fst ` set (files fs) \<or> p \<in> set (dirs fs))"

text \<open>\<^verbatim>\<open>mkdir(parents=True, exist_ok=True)\<close>: the directory and its missing ancestors;
  \<open>None\<close> (\<^verbatim>\<open>FileExistsError\<close>) when a file has its path.\<close>

definition ancestors :: "string \<Rightarrow> string list" where
  "ancestors d = filter (\<lambda>a. a \<noteq> [])
     (map (\<lambda>i. take i d) (filter (\<lambda>i. d ! i = CHR ''/'') [0..<length d]))"

definition mkdir :: "data_dir \<Rightarrow> string \<Rightarrow> data_dir option" where
  "mkdir fs d =
     (if list_ex (\<lambda>a. a \<in> fst ` set (files fs)) (ancestors d @ [d]) then None
      else Some (fs\<lparr>dirs := dirs fs
                   @ filter (\<lambda>a. a \<notin> set (dirs fs)) (remdups (ancestors d @ [d]))\<rparr>))"

text \<open>Opening a file for writing, by \<^verbatim>\<open>open(path, "w")\<close> or by the kernel's
  \<^verbatim>\<open>save_index\<close>: \<open>None\<close> is the exception.\<close>

definition write_file :: "data_dir \<Rightarrow> string \<Rightarrow> disk_file \<Rightarrow> data_dir option" where
  "write_file fs p f =
     (if (parent p = [] \<or> parent p \<in> set (dirs fs)) \<and> p \<notin> set (dirs fs)
      then Some (fs\<lparr>files := AList.update p f (files fs)\<rparr>)
      else None)"

text \<open>\<^verbatim>\<open>Path.stem\<close> of a name that ends in \<open>.bin\<close>: the name without these four
  characters, unless the name is \<open>.bin\<close> itself.\<close>

definition stem_bin :: "string \<Rightarrow> string" where
  "stem_bin name = (if length name > 4 then take (length name - 4) name else name)"

subsection \<open>Saving\<close>

text \<open>
  The body of the loop of \<^verbatim>\<open>save_collection\<close> for one shard: the index file is
  written first, then the map file; an exception at any point is logged and leaves what
  has been written.
\<close>

definition save_shard :: "engine \<Rightarrow> string \<Rightarrow> string \<Rightarrow> hnsw_index \<Rightarrow> data_dir \<Rightarrow> data_dir" where
  "save_shard e collection_id sid index fs =
     (case write_file fs (join collection_id (''shard_'' @ sid @ ''.bin'')) (IndexFile index) of
        None \<Rightarrow> fs
      | Some fs1 \<Rightarrow>
         (case map_of (id_maps e) collection_id of
            None \<Rightarrow> fs1
          | Some shard_maps \<Rightarrow>
             (case map_of shard_maps sid of
                None \<Rightarrow> fs1
              | Some id_map \<Rightarrow>
                 (case map_of (next_ids e) collection_id of
                    None \<Rightarrow> fs1
                  | Some counters \<Rightarrow>
                     (let next_id = (case map_of counters sid of None \<Rightarrow> 0 | Some n \<Rightarrow> n)
                      in case write_file fs1 (join collection_id (''shard_'' @ sid @ ''_map.json''))
                                (MapFile id_map (Some next_id)) of
                           None \<Rightarrow> fs1
                         | Some fs2 \<Rightarrow> fs2)))))"

text \<open>\<^verbatim>\<open>save_collection\<close>: the \<^verbatim>\<open>mkdir\<close> is outside the \<^verbatim>\<open>try\<close>, so its exception
  leaves the function.\<close>

definition save_collection :: "engine \<Rightarrow> string \<Rightarrow> data_dir \<Rightarrow> error option \<times> data_dir" where
  "save_collection e collection_id fs =
     (case map_of (indices e) collection_id of
        None \<Rightarrow> (None, fs)
      | Some shards \<Rightarrow>
         (case mkdir fs collection_id of
            None \<Rightarrow> (Some ValueError, fs)
          | Some fs1 \<Rightarrow>
              (None, fold (\<lambda>(sid, index). save_shard e collection_id sid index) shards fs1)))"

fun save_collections :: "engine \<Rightarrow> string list \<Rightarrow> data_dir \<Rightarrow> error option \<times> data_dir" where
  "save_collections e [] fs = (None, fs)"
| "save_collections e (collection_id # rest) fs =
     (case save_collection e collection_id fs of
        (Some err, fs1) \<Rightarrow> (Some err, fs1)
      | (None, fs1) \<Rightarrow> save_collections e rest fs1)"

definition save_all :: "engine \<Rightarrow> data_dir \<Rightarrow> error option \<times> data_dir" where
  "save_all e fs = save_collections e (map fst (indices e)) fs"

subsection \<open>Loading\<close>

text \<open>
  One iteration of either loop of \<^verbatim>\<open>load_all\<close>, from \<^verbatim>\<open>load_index\<close> on: the index
  is stored before the map file is read, and an exception at any point is logged and
  leaves what has been stored.
\<close>

definition load_shard ::
  "data_dir \<Rightarrow> string \<Rightarrow> string \<Rightarrow> disk_file option \<Rightarrow> string \<Rightarrow> engine \<Rightarrow> engine" where
  "load_shard fs collection_id sid bin map_path e =
     (case bin of
        Some (IndexFile index) \<Rightarrow>
         (let e1 = ensure_collection e collection_id
          in case store2 (indices e1) collection_id sid index of
               None \<Rightarrow> e1
             | Some ix \<Rightarrow>
                (let e2 = e1\<lparr>indices := ix\<rparr>;
                     loaded = (if exists_path fs map_path
                               then (case map_of (files fs) map_path of
                                       Some (MapFile id_map next_id) \<Rightarrow>
                                         Some (id_map, (case next_id of None \<Rightarrow> 0 | Some n \<Rightarrow> n))
                                     | _ \<Rightarrow> None)
                               else Some ([], 0))
                 in case loaded of
                      None \<Rightarrow> e2
                    | Some (id_map, next_id) \<Rightarrow>
                       (case store2 (id_maps e2) collection_id sid id_map of
                          None \<Rightarrow> e2
                        | Some im \<Rightarrow>
                           (case store2 (next_ids e2) collection_id sid next_id of
                              None \<Rightarrow> e2\<lparr>id_maps := im\<rparr>
                            | Some ni \<Rightarrow> e2\<lparr>id_maps := im, next_ids := ni\<rparr>))))
      | _ \<Rightarrow> e)"

text \<open>The legacy loop over \<^verbatim>\<open>data_dir.glob("*.bin")\<close>.\<close>

definition load_legacy :: "data_dir \<Rightarrow> engine \<Rightarrow> engine" where
  "load_legacy fs e =
     fold (\<lambda>(name, bin) e'.
             (let collection_id = stem_bin name
              in load_shard fs collection_id ''default'' bin
                   (join [] (collection_id @ ''_map.json'')) e'))
          (filter (\<lambda>(name, bin). ends_with ''.bin'' name) (listdir fs [])) e"

text \<open>The loop over \<^verbatim>\<open>collection_dir.glob("shard_*.bin")\<close> for one directory.\<close>

definition load_collection_dir :: "data_dir \<Rightarrow> string \<Rightarrow> engine \<Rightarrow> engine" where
  "load_collection_dir fs collection_id e =
     fold (\<lambda>(name, bin) e'.
             (let sid = remove_all ''.bin'' (remove_all ''shard_'' (stem_bin name))
              in load_shard fs collection_id sid bin
                   (join collection_id (''shard_'' @ sid @ ''_map.json'')) e'))
          (filter (\<lambda>(name, bin). starts_with ''shard_'' name \<and> ends_with ''.bin'' name
                                 \<and> 10 \<le> length name)
             (listdir fs collection_id)) e"

text \<open>\<^verbatim>\<open>load_all\<close>, and \<^verbatim>\<open>VectorEngine(data_dir, embedding_dim, max_ram_gb)\<close> on an
  existing data directory.\<close>

definition load_all :: "data_dir \<Rightarrow> engine \<Rightarrow> engine" where
  "load_all fs e =
     fold (\<lambda>(name, entry) e'. (case entry of
                                  None \<Rightarrow> load_collection_dir fs name e'
                                | Some f \<Rightarrow> e'))
          (listdir fs []) (load_legacy fs e)"

definition VectorEngine :: "data_dir \<Rightarrow> int \<Rightarrow> int \<Rightarrow> engine" where
  "VectorEngine fs d max_ram_gb = load_all fs (new_engine d max_ram_gb)"

text \<open>One vector \<open>a\<close> in shard \<open>shard_0\<close> of collection \<open>c1\<close>; the data directory after
  \<^verbatim>\<open>save_all\<close> on an empty one; the engine started on that directory.\<close>

definition one_shard :: engine where
  "one_shard = snd (add_vectors (new_engine 4 1) ''c1''
      \<lparr>shape1 = 4, rows = [[1, 0, 0, 0]]\<rparr> [''a''] (Some ''shard_0''))"

definition one_shard_saved :: data_dir where
  "one_shard_saved = snd (save_all one_shard empty_dir)"

definition one_shard_reloaded :: engine where
  "one_shard_reloaded = VectorEngine one_shard_saved 4 1"

text \<open>The same engine with a second vector \<open>b\<close> in shard \<open>0\<close> of the collection, saved
  and reloaded in the same way.\<close>

definition two_shards :: engine where
  "two_shards = snd (add_vectors one_shard ''c1''
      \<lparr>shape1 = 4, rows = [[0, 1, 0, 0]]\<rparr> [''b''] (Some ''0''))"

definition two_shards_saved :: data_dir where
  "two_shards_saved = snd (save_all two_shards empty_dir)"

definition two_shards_reloaded :: engine where
  "two_shards_reloaded = VectorEngine two_shards_saved 4 1"

text \<open>The engine with three vectors in the default shard, saved and reloaded.\<close>

definition scenario1_saved :: data_dir where
  "scenario1_saved = snd (save_all scenario1 empty_dir)"

definition scenario1_reloaded :: engine where
  "scenario1_reloaded = VectorEngine scenario1_saved 4 1"

section \<open>The search handler\<close>

text \<open>
  \<^verbatim>\<open>message_dict\<close> of a \<^verbatim>\<open>search_request\<close> frame, as parsed from JSON. A field that is
  present carries a value of its declared type; \<open>None\<close> is an absent field (for
  \<^verbatim>\<open>shard_id\<close> also an explicit null). Values of the wrong type, which pydantic would
  coerce or reject, are not modelled.
\<close>

record search_message =
  msg_request_id :: "string option"
  msg_collection_id :: "string option"
  msg_shard_id :: "string option"
  msg_query_b64 :: "string option"
  msg_shape :: "int list option"
  msg_top_k :: "int option"

text \<open>The pydantic model \<^verbatim>\<open>SearchRequest\<close> of \<^verbatim>\<open>messages.py\<close>: four required fields,
  \<^verbatim>\<open>shard_id: Optional[str] = None\<close>, \<^verbatim>\<open>shape: Tuple[int]\<close> (one entry) and
  \<^verbatim>\<open>top_k: int = 10\<close>.\<close>

record search_request =
  request_id :: string
  collection_id :: string
  shard_id :: "string option"
  query_b64 :: string
  shape :: "int list"
  top_k :: int

definition SearchRequest :: "search_message \<Rightarrow> error + search_request" where
  "SearchRequest m =
     (case (msg_request_id m, msg_collection_id m, msg_query_b64 m, msg_shape m) of
        (Some r, Some c, Some q, Some [d]) \<Rightarrow>
          Inr \<lparr>request_id = r, collection_id = c, shard_id = msg_shard_id m, query_b64 = q,
               shape = [d], top_k = (case msg_top_k m of None \<Rightarrow> 10 | Some k \<Rightarrow> k)\<rparr>
      | _ \<Rightarrow> Inl ValidationError)"

text \<open>\<^verbatim>\<open>getattr(request, 'top_k', 50)\<close>: the default is returned only when the object
  has no such attribute, and every \<^verbatim>\<open>SearchRequest\<close> instance has \<^verbatim>\<open>top_k\<close>.\<close>

definition getattr_top_k :: "search_request \<Rightarrow> int \<Rightarrow> int" where
  "getattr_top_k request fallback = top_k request"

text \<open>\<^verbatim>\<open>decode_query_vector\<close> (base64, zstandard, float32) is a parameter here: from the
  text and the shape to the exception raised or the query vector.\<close>

type_synonym query_decoder = "string \<Rightarrow> int list \<Rightarrow> error + vec"

text \<open>The first lines of \<^verbatim>\<open>_handle_search\<close>, up to the call of \<^verbatim>\<open>engine.search\<close>: the
  exception raised before the call, or the arguments of the call
  \<open>(collection_id, query_vector, k, shard_id)\<close>.\<close>

definition search_call ::
  "query_decoder \<Rightarrow> search_message \<Rightarrow> error + (string \<times> vec \<times> int \<times> string option)" where
  "search_call decode_query_vector message_dict =
     (case SearchRequest message_dict of
        Inl err \<Rightarrow> Inl err
      | Inr request \<Rightarrow>
         (case decode_query_vector (query_b64 request) (shape request) of
            Inl err \<Rightarrow> Inl err
          | Inr query_vector \<Rightarrow>
             (let k = getattr_top_k request 50
              in Inr (collection_id request, query_vector, k, shard_id request))))"

record search_response =
  resp_request_id :: string
  resp_node_id :: string
  resp_results :: results

text \<open>
  \<^verbatim>\<open>_handle_search\<close>. An exception before or inside the search gives the response with
  no results, built with \<^verbatim>\<open>message_dict.get("request_id")\<close>; when that is missing the
  response model itself refuses (\<^verbatim>\<open>request_id: str\<close>) and the handler raises.
\<close>

definition handle_search ::
  "query_decoder \<Rightarrow> knn_query \<Rightarrow> (results \<Rightarrow> results) \<Rightarrow> string \<Rightarrow> engine
     \<Rightarrow> search_message \<Rightarrow> (error + search_response) \<times> engine" where
  "handle_search decode_query_vector knn nan_order node_id e message_dict =
     (let failed = (\<lambda>e'. (case msg_request_id message_dict of
                            None \<Rightarrow> (Inl ValidationError, e')
                          | Some r \<Rightarrow> (Inr \<lparr>resp_request_id = r, resp_node_id = node_id,
                                            resp_results = []\<rparr>, e')))
      in case search_call decode_query_vector message_dict of
           Inl err \<Rightarrow> failed e
         | Inr (c, query_vector, k, s) \<Rightarrow>
            (case search knn nan_order e c query_vector k s of
               (Inl err, e') \<Rightarrow> failed e'
             | (Inr results, e') \<Rightarrow>
                 (case msg_request_id message_dict of
                    None \<Rightarrow> (Inl ValidationError, e')
                  | Some r \<Rightarrow> (Inr \<lparr>resp_request_id = r, resp_node_id = node_id,
                                    resp_results = results\<rparr>, e'))))"

text \<open>A search request for collection \<open>c1\<close> that carries no \<^verbatim>\<open>top_k\<close>, and a decoder
  that yields the first unit vector.\<close>

definition request_without_top_k :: search_message where
  "request_without_top_k =
     \<lparr>msg_request_id = Some ''r1'', msg_collection_id = Some ''c1'', msg_shard_id = None,
      msg_query_b64 = Some ''AAAA'', msg_shape = Some [4], msg_top_k = None\<rparr>"

definition unit_query :: query_decoder where
  "unit_query data_b64 shp = Inr [1, 0, 0, 0]"

section \<open>Vector serialization\<close>

text \<open>
  \<^verbatim>\<open>shared/protocol/serialization.py\<close>. A float32 is kept as its 32-bit pattern, so that
  equality of arrays is bit identity. An array of shape \<open>(n, dim)\<close> is its shape and its
  buffer in row-major order; the binaries are x64 builds, so \<^verbatim>\<open>tobytes\<close> and
  \<^verbatim>\<open>frombuffer\<close> are little-endian.
\<close>

unbundle bit_operations_syntax

type_synonym byte = "8 word"
type_synonym float32 = "32 word"

record f32_array =
  arr_shape :: "int \<times> int"
  arr_data :: "float32 list"

text \<open>What numpy guarantees of a two-dimensional array.\<close>

definition wf_array :: "f32_array \<Rightarrow> bool" where
  "wf_array a = (case arr_shape a of (n, d) \<Rightarrow>
       0 \<le> n \<and> 0 \<le> d \<and> int (length (arr_data a)) = n * d)"

definition f32_bytes :: "float32 \<Rightarrow> byte list" where
  "f32_bytes w = [ucast w, ucast (drop_bit 8 w), ucast (drop_bit 16 w), ucast (drop_bit 24 w)]"

definition f32_of_bytes :: "byte \<Rightarrow> byte \<Rightarrow> byte \<Rightarrow> byte \<Rightarrow> float32" where
  "f32_of_bytes a b c d =
     ucast a OR push_bit 8 (ucast b) OR push_bit 16 (ucast c) OR push_bit 24 (ucast d)"

definition tobytes :: "float32 list \<Rightarrow> byte list" where
  "tobytes ws = concat (map f32_bytes ws)"

text \<open>\<^verbatim>\<open>np.frombuffer(vector_bytes, dtype=np.float32)\<close>: a \<^verbatim>\<open>ValueError\<close> when the buffer
  size is not a multiple of the element size.\<close>

fun frombuffer :: "byte list \<Rightarrow> error + float32 list" where
  "frombuffer [] = Inr []"
| "frombuffer (a # b # c # d # rest) =
     (case frombuffer rest of
        Inl err \<Rightarrow> Inl err
      | Inr ws \<Rightarrow> Inr (f32_of_bytes a b c d # ws))"
| "frombuffer _ = Inl ValueError"

text \<open>
  \<^verbatim>\<open>.reshape(shape)\<close> with a pair: one entry may be \<open>-1\<close> and is then inferred from
  the size; any other negative entry, two unknowns, or a product that differs from the
  size is a \<^verbatim>\<open>ValueError\<close>.
\<close>

definition reshape :: "float32 list \<Rightarrow> int \<times> int \<Rightarrow> error + f32_array" where
  "reshape ws shp = (case shp of (n, d) \<Rightarrow>
     (let size = int (length ws) in
      if n < -1 \<or> d < -1 \<or> (n = -1 \<and> d = -1) then Inl ValueError
      else if n = -1 then
        (if 0 < d \<and> size mod d = 0 then Inr \<lparr>arr_shape = (size div d, d), arr_data = ws\<rparr>
         else Inl ValueError)
      else if d = -1 then
        (if 0 < n \<and> size mod n = 0 then Inr \<lparr>arr_shape = (n, size div n), arr_data = ws\<rparr>
         else Inl ValueError)
      else if n * d = size then Inr \<lparr>arr_shape = (n, d), arr_data = ws\<rparr>
      else Inl ValueError))"

text \<open>
  The zstandard compressor and the base64 codec are external libraries, passed as
  parameters: \<open>compress\<close> and \<open>b64encode\<close> are total, \<open>decompress\<close> and \<open>b64decode\<close>
  may raise. The array passed to \<^verbatim>\<open>encode_vectors\<close> is a float32 array, so the
  \<^verbatim>\<open>astype\<close> branch is not taken.
\<close>

definition encode_vectors ::
  "(byte list \<Rightarrow> byte list) \<Rightarrow> (byte list \<Rightarrow> string) \<Rightarrow> f32_array \<Rightarrow> string \<times> (int \<times> int)" where
  "encode_vectors compress b64encode vectors =
     (let vector_bytes = tobytes (arr_data vectors);
          compressed = compress vector_bytes;
          b64_string = b64encode compressed
      in (b64_string, arr_shape vectors))"

definition decode_vectors ::
  "(string \<Rightarrow> error + byte list) \<Rightarrow> (byte list \<Rightarrow> error + byte list)
     \<Rightarrow> string \<Rightarrow> int \<times> int \<Rightarrow> error + f32_array" where
  "decode_vectors b64decode decompress data_b64 shp =
     (case b64decode data_b64 of
        Inl err \<Rightarrow> Inl err
      | Inr compressed \<Rightarrow>
         (case decompress compressed of
            Inl err \<Rightarrow> Inl err
          | Inr vector_bytes \<Rightarrow>
             (case frombuffer vector_bytes of
                Inl err \<Rightarrow> Inl err
              | Inr ws \<Rightarrow> reshape ws shp)))"

text \<open>A codec to run the two functions with: bytes written as characters, and a
  compressor that puts a marker byte in front.\<close>

definition text_of_bytes :: "byte list \<Rightarrow> string" where
  "text_of_bytes bs = map (\<lambda>b. char_of (unat b)) bs"

definition bytes_of_text :: "string \<Rightarrow> error + byte list" where
  "bytes_of_text s = Inr (map (\<lambda>c. of_nat (of_char c)) s)"

definition mark :: "byte list \<Rightarrow> byte list" where
  "mark bs = 40 # bs"

definition unmark :: "byte list \<Rightarrow> error + byte list" where
  "unmark bs = (case bs of [] \<Rightarrow> Inl CodecError
                | b # rest \<Rightarrow> if b = 40 then Inr rest else Inl CodecError)"

section \<open>The challenge handler\<close>

text \<open>\<^verbatim>\<open>bytes.fromhex\<close>: ASCII whitespace is skipped before each byte, and a byte is two
  hexadecimal digits; anything else is a \<^verbatim>\<open>ValueError\<close>.\<close>

definition is_space :: "char \<Rightarrow> bool" where
  "is_space c = (of_char c \<in> {9, 10, 11, 12, 13, 32 :: nat})"

definition hex_value :: "char \<Rightarrow> nat option" where
  "hex_value c =
     (let n = of_char c :: nat in
      if 48 \<le> n \<and> n \<le> 57 then Some (n - 48)
      else if 97 \<le> n \<and> n \<le> 102 then Some (n - 87)
      else if 65 \<le> n \<and> n \<le> 70 then Some (n - 55)
      else None)"

fun fromhex :: "string \<Rightarrow> error + byte list" where
  "fromhex [] = Inr []"
| "fromhex [c] = (if is_space c then Inr [] else Inl ValueError)"
| "fromhex (c # d # rest) =
     (if is_space c then fromhex (d # rest)
      else (case (hex_value c, hex_value d) of
              (Some hi, Some lo) \<Rightarrow>
                (case fromhex rest of
                   Inl err \<Rightarrow> Inl err
                 | Inr bs \<Rightarrow> Inr (of_nat (hi * 16 + lo) # bs))
            | _ \<Rightarrow> Inl ValueError))"

text \<open>\<^verbatim>\<open>current_offset.to_bytes(8, 'big')\<close>: an \<^verbatim>\<open>OverflowError\<close> for a negative
  integer and for one that does not fit 8 bytes.\<close>

definition big_endian_uint64 :: "int \<Rightarrow> byte list" where
  "big_endian_uint64 n = map (\<lambda>i. word_of_int (n div 2 ^ (8 * (7 - i)))) [0..<8]"

definition to_bytes8 :: "int \<Rightarrow> error + byte list" where
  "to_bytes8 n = (if 0 \<le> n \<and> n < 2 ^ 64 then Inr (big_endian_uint64 n) else Inl OverflowError)"

text \<open>
  \<^verbatim>\<open>hashlib.sha256\<close> is an external library: a parameter, from the message to the
  256-bit digest. \<^verbatim>\<open>.digest()\<close> is its 32 bytes, most significant first.
\<close>

type_synonym sha256 = "byte list \<Rightarrow> 256 word"

definition digest :: "256 word \<Rightarrow> byte list" where
  "digest w = map (\<lambda>i. ucast (drop_bit (8 * (31 - i)) w)) [0..<32]"

text \<open>The \<^verbatim>\<open>while len(chunk_data) < request.chunk_size\<close> loop for one offset.\<close>

function chunk_loop :: "sha256 \<Rightarrow> byte list \<Rightarrow> int \<Rightarrow> byte list \<Rightarrow> int \<Rightarrow> error + byte list" where
  "chunk_loop sha epoch_seed chunk_size chunk_data current_offset =
     (if int (length chunk_data) < chunk_size then
        (case to_bytes8 current_offset of
           Inl err \<Rightarrow> Inl err
         | Inr offset_bytes \<Rightarrow>
            (if chunk_size - int (length chunk_data) \<ge> 32
             then chunk_loop sha epoch_seed chunk_size
                    (chunk_data @ digest (sha (epoch_seed @ offset_bytes))) (current_offset + 32)
             else chunk_loop sha epoch_seed chunk_size
                    (chunk_data @ take (nat (chunk_size - int (length chunk_data)))
                                    (digest (sha (epoch_seed @ offset_bytes))))
                    (current_offset + (chunk_size - int (length chunk_data)))))
      else Inr chunk_data)"
  by pat_completeness auto
termination
  by (relation "measure (\<lambda>(sha, epoch_seed, chunk_size, chunk_data, current_offset).
        nat (chunk_size - int (length chunk_data)))") (auto simp: digest_def)

declare chunk_loop.simps [simp del]

text \<open>The \<^verbatim>\<open>for offset in request.offsets\<close> loop: the first exception ends it.\<close>

fun chunks_for :: "(byte list \<Rightarrow> string) \<Rightarrow> sha256 \<Rightarrow> byte list \<Rightarrow> int \<Rightarrow> int list
     \<Rightarrow> error + string list" where
  "chunks_for b64encode sha epoch_seed chunk_size [] = Inr []"
| "chunks_for b64encode sha epoch_seed chunk_size (offset # rest) =
     (case chunk_loop sha epoch_seed chunk_size [] offset of
        Inl err \<Rightarrow> Inl err
      | Inr chunk_data \<Rightarrow>
         (case chunks_for b64encode sha epoch_seed chunk_size rest of
            Inl err \<Rightarrow> Inl err
          | Inr chunks_b64 \<Rightarrow> Inr (b64encode chunk_data # chunks_b64)))"

text \<open>
  \<^verbatim>\<open>message_dict\<close> of a \<^verbatim>\<open>challenge_request\<close> frame (\<open>None\<close>: the field is absent), the
  pydantic model \<^verbatim>\<open>ChallengeRequest\<close> with its five required fields, and the response.
\<close>

record challenge_message =
  msg_challenge_id :: "string option"
  msg_epoch_seed :: "string option"
  msg_offsets :: "int list option"
  msg_chunk_size :: "int option"
  msg_deadline_ms :: "int option"

record challenge_request =
  challenge_id :: string
  epoch_seed :: string
  offsets :: "int list"
  chunk_size :: int
  deadline_ms :: int

definition ChallengeRequest :: "challenge_message \<Rightarrow> error + challenge_request" where
  "ChallengeRequest m =
     (case (msg_challenge_id m, msg_epoch_seed m, msg_offsets m, msg_chunk_size m,
            msg_deadline_ms m) of
        (Some i, Some s, Some os, Some c, Some d) \<Rightarrow>
          Inr \<lparr>challenge_id = i, epoch_seed = s, offsets = os, chunk_size = c, deadline_ms = d\<rparr>
      | _ \<Rightarrow> Inl ValidationError)"

record challenge_response =
  resp_challenge_id :: string
  chunks :: "string list"
  response_time_ms :: int

text \<open>
  The first log call of the \<^verbatim>\<open>try\<close> block formats \<^verbatim>\<open>request.chunk_size / 1024\<close>. The
  true division of integers raises \<^verbatim>\<open>OverflowError\<close> when the quotient is too large
  for a float: when it rounds to \<open>2^1024\<close>, that is from \<open>2^1024 - 2^970\<close> on.
\<close>

definition chunk_size_kb_overflows :: "int \<Rightarrow> bool" where
  "chunk_size_kb_overflows n = (2 ^ 1034 - 2 ^ 980 \<le> \<bar>n\<bar>)"

text \<open>The body of the \<^verbatim>\<open>try\<close> block, up to the chunks: the request model, the log
  call, the seed, the loop over the offsets. Memory is unbounded in the model.\<close>

definition challenge_chunks ::
  "(byte list \<Rightarrow> string) \<Rightarrow> sha256 \<Rightarrow> challenge_message \<Rightarrow> error + (string \<times> string list)" where
  "challenge_chunks b64encode sha message_dict =
     (case ChallengeRequest message_dict of
        Inl err \<Rightarrow> Inl err
      | Inr request \<Rightarrow>
         (if chunk_size_kb_overflows (chunk_size request) then Inl OverflowError
          else
           (case fromhex (epoch_seed request) of
              Inl err \<Rightarrow> Inl err
            | Inr seed \<Rightarrow>
               (case chunks_for b64encode sha seed (chunk_size request) (offsets request) of
                  Inl err \<Rightarrow> Inl err
                | Inr chunks_b64 \<Rightarrow> Inr (challenge_id request, chunks_b64)))))"

text \<open>
  \<^verbatim>\<open>_handle_challenge\<close>. \<open>elapsed_ms\<close> is the wall time the handler measures. Any
  exception gives the response with no chunks, time 0 and
  \<^verbatim>\<open>message_dict.get("challenge_id", "unknown")\<close>.
\<close>

definition handle_challenge ::
  "(byte list \<Rightarrow> string) \<Rightarrow> sha256 \<Rightarrow> int \<Rightarrow> challenge_message \<Rightarrow> challenge_response" where
  "handle_challenge b64encode sha elapsed_ms message_dict =
     (case challenge_chunks b64encode sha message_dict of
        Inr (cid, chunks_b64) \<Rightarrow>
          \<lparr>resp_challenge_id = cid, chunks = chunks_b64, response_time_ms = elapsed_ms\<rparr>
      | Inl err \<Rightarrow>
          \<lparr>resp_challenge_id = (case msg_challenge_id message_dict of
                                   None \<Rightarrow> ''unknown'' | Some cid \<Rightarrow> cid),
           chunks = [], response_time_ms = 0\<rparr>)"

text \<open>
  The chunk in the words of the specification: the first \<open>chunk_size\<close> bytes of the
  concatenated digests of \<open>epoch_seed || big_endian_uint64 current_offset\<close>, for
  \<open>current_offset = offset, offset + 32, offset + 64, ...\<close>; the last digest is cut to
  the residual.
\<close>

definition chunk_by_spec :: "sha256 \<Rightarrow> byte list \<Rightarrow> int \<Rightarrow> int \<Rightarrow> byte list" where
  "chunk_by_spec sha seed start len =
     take (nat len)
       (concat (map (\<lambda>j. digest (sha (seed @ big_endian_uint64 (start + 32 * int j))))
          [0..<nat ((len + 31) div 32)]))"

text \<open>The offsets for which every integer the loop converts fits 8 bytes: none is
  converted when the chunk size is not positive.\<close>

definition offset_fits :: "int \<Rightarrow> int \<Rightarrow> bool" where
  "offset_fits len start =
     (len \<le> 0 \<or> (0 \<le> start \<and> start + 32 * ((len - 1) div 32) < 2 ^ 64))"

text \<open>A stand-in for the hash (the sum of the message bytes) and for base64 (one
  letter per byte count), to run the handler with.\<close>

definition sum_hash :: sha256 where
  "sum_hash bs = word_of_nat (sum_list (map unat bs))"

definition length_text :: "byte list \<Rightarrow> string" where
  "length_text bs = replicate (length bs) CHR ''x''"

text \<open>Two challenge requests: two offsets with a chunk size of 40, and one offset
  with a negative chunk size.\<close>

definition challenge_two_offsets :: challenge_message where
  "challenge_two_offsets =
     \<lparr>msg_challenge_id = Some ''ch1'', msg_epoch_seed = Some ''00 ff'',
      msg_offsets = Some [0, 40], msg_chunk_size = Some 40, msg_deadline_ms = Some 1000\<rparr>"

definition challenge_negative_size :: challenge_message where
  "challenge_negative_size =
     \<lparr>msg_challenge_id = Some ''ch2'', msg_epoch_seed = Some ''00 ff'',
      msg_offsets = Some [0], msg_chunk_size = Some (- 1), msg_deadline_ms = Some 1000\<rparr>"


section \<open>Capacity check\<close>

text \<open>
  C4. For an engine built with \<open>max_ram_gb\<close> and every \<open>n\<close>, \<open>can_accept n\<close> is true
  exactly when \<open>bytes_used + n * D * 4 \<le> max_bytes\<close>, where \<open>bytes_used\<close> is
  \<open>get_bytes_used = get_total_vectors * D * 4\<close> and \<open>max_bytes = max_ram_gb * 2^30\<close>;
  equivalently it is false exactly when \<open>(total_vectors + n) * D * 4 > max_bytes\<close>.
\<close>

theorem can_accept_iff:
  "max_bytes e = max_ram_gb * 2 ^ 30 \<Longrightarrow>
     get_bytes_used e = get_total_vectors e * embedding_dim e * 4
   \<and> (can_accept e n \<longleftrightarrow> get_bytes_used e + n * embedding_dim e * 4 \<le> max_ram_gb * 2 ^ 30)
   \<and> (\<not> can_accept e n \<longleftrightarrow>
        (get_total_vectors e + n) * embedding_dim e * 4 > max_ram_gb * 2 ^ 30)"
  by (auto simp: can_accept_def get_bytes_used_def Let_def algebra_simps)

theorem can_accept_iff_witness:
  "max_bytes (new_engine 384 1) = 1 * 2 ^ 30
   \<and> can_accept (new_engine 384 1) 699050 \<and> \<not> can_accept (new_engine 384 1) 699051"
  using can_accept_iff [of "new_engine 384 1" 1 699050]
        can_accept_iff [of "new_engine 384 1" 1 699051]
  by (simp add: new_engine_def get_total_vectors_def)

section \<open>Running the two small engines\<close>

lemma normalize_unit:
  "normalize_row [1, 0, 0, 0] = [1, 0, 0, 0]"
  "normalize_row [0, 1, 0, 0] = [0, 1, 0, 0]"
  "normalize_row [0, 0, 1, 0] = [0, 0, 1, 0]"
  by (simp_all add: normalize_row_def l2_norm_def)

lemmas add_vectors_unfold =
  add_vectors_def new_engine_def shape0_def get_lock_def normalize_shard_id_def
  ensure_collection_def ensure_shard_def store2_def init_index_def insert_batch_def
  lookup2_def replace2_def normalize_unit get_current_count_def AList.updates_def upt_rec
  Let_def

lemma scenario1_eq: "scenario1 =
   \<lparr>embedding_dim = 4, max_bytes = 1024 ^ 3,
    indices = [(''c1'', [(''default'', \<lparr>index_dim = 4, max_elements = 1000000,
        index_items = [(0, [1, 0, 0, 0]), (1, [0, 1, 0, 0]), (2, [0, 0, 1, 0])]\<rparr>)])],
    id_maps = [(''c1'', [(''default'', [(0, ''a''), (1, ''b''), (2, ''c'')])])],
    next_ids = [(''c1'', [(''default'', 3)])],
    locks = [(''c1'', [''default''])]\<rparr>"
  by (simp add: scenario1_def add_vectors_unfold)

lemma unnamed_doc_eq: "unnamed_doc =
   \<lparr>embedding_dim = 4, max_bytes = 1024 ^ 3,
    indices = [(''c1'', [(''default'', \<lparr>index_dim = 4, max_elements = 1000000,
        index_items = [(0, [1, 0, 0, 0])]\<rparr>)])],
    id_maps = [(''c1'', [(''default'', [(0, '''')])])],
    next_ids = [(''c1'', [(''default'', 1)])],
    locks = [(''c1'', [''default''])]\<rparr>"
  by (simp add: unnamed_doc_def add_vectors_unfold)


section \<open>Argument checks of \<open>add_vectors\<close>\<close>

text \<open>
  C7, as the code has it. \<open>add_vectors\<close> fails with the dimension error whenever
  \<open>vectors.shape[1]\<close> differs from the embedding dimension; it fails with the count error
  whenever the width is right and the number of doc ids differs from the number of
  vectors. Both are raised before the engine is touched. (The width is tested first, so a
  call with both defects reports the dimension.)
\<close>

theorem add_vectors_argument_errors:
  "(shape1 v \<noteq> embedding_dim e \<longrightarrow>
      add_vectors e c v ds s = (Some (DimensionMismatch (shape1 v) (embedding_dim e)), e))
   \<and> (shape1 v = embedding_dim e \<and> int (length ds) \<noteq> shape0 v \<longrightarrow>
      add_vectors e c v ds s = (Some (CountMismatch (int (length ds)) (shape0 v)), e))"
  by (simp add: add_vectors_def)

theorem add_vectors_argument_errors_witness:
  "add_vectors (new_engine 4 1) ''c1'' \<lparr>shape1 = 3, rows = [[1, 0, 0]]\<rparr> [''a''] None
     = (Some (DimensionMismatch 3 4), new_engine 4 1)
   \<and> add_vectors (new_engine 4 1) ''c1'' \<lparr>shape1 = 4, rows = [[1, 0, 0, 0]]\<rparr> [] None
     = (Some (CountMismatch 0 1), new_engine 4 1)"
  using add_vectors_argument_errors [of "\<lparr>shape1 = 3, rows = [[1, 0, 0]]\<rparr>"
          "new_engine 4 1" "''c1''" "[''a'']" None]
        add_vectors_argument_errors [of "\<lparr>shape1 = 4, rows = [[1, 0, 0, 0]]\<rparr>"
          "new_engine 4 1" "''c1''" "[]" None]
  by (simp add: new_engine_def shape0_def)

text \<open>
  C7 as stated promises the count error whenever the counts differ. With no doc id for
  one vector of width 3 in an engine of dimension 4 the counts differ, and the error is
  the dimension error.
\<close>

theorem add_vectors_count_error_counterexample:
  "int (length ([] :: string list)) \<noteq> shape0 \<lparr>shape1 = 3, rows = [[1, 0, 0]]\<rparr>
   \<and> fst (add_vectors (new_engine 4 1) ''c1'' \<lparr>shape1 = 3, rows = [[1, 0, 0]]\<rparr> [] None)
       = Some (DimensionMismatch 3 4)
   \<and> fst (add_vectors (new_engine 4 1) ''c1'' \<lparr>shape1 = 3, rows = [[1, 0, 0]]\<rparr> [] None)
       \<noteq> Some (CountMismatch 0 1)"
  by (simp add: add_vectors_def new_engine_def shape0_def)

section \<open>Search\<close>

lemma mset_sort_results: "mset (sort_results f xs) = mset xs"
  by (simp add: sort_results_def)

lemma set_sort_results: "set (sort_results f xs) = set xs"
  using mset_sort_results[of f xs] by (rule mset_eq_setD)




lemma set_convert_hits: "set (convert_hits m hits) =
   {(doc_id, similarity distance) | label distance doc_id.
      (label, distance) \<in> set hits \<and> map_of m label = Some doc_id \<and> doc_id \<noteq> []}"
proof (induction m hits rule: convert_hits.induct)
  case (1 id_map)
  show ?case by simp
next
  case (2 id_map label distance hits)
  let ?S = "\<lambda>hs. {(doc_id, similarity d) | l d doc_id.
      (l, d) \<in> set hs \<and> map_of id_map l = Some doc_id \<and> doc_id \<noteq> []}"
  have split: "?S ((label, distance) # hits) =
      (case map_of id_map label of None \<Rightarrow> {}
       | Some doc_id \<Rightarrow> if doc_id \<noteq> [] then {(doc_id, similarity distance)} else {}) \<union> ?S hits"
    by (auto split: option.splits)
  show ?case
  proof (cases "map_of id_map label")
    case None
    with "2.IH"(1) split show ?thesis by simp
  next
    case (Some doc)
    show ?thesis
    proof (cases "doc = []")
      case True
      with Some "2.IH"(3) split show ?thesis by simp
    next
      case False
      with Some "2.IH"(2) split show ?thesis by simp
    qed
  qed
qed

lemmas search_unfold =
  search_def normalize_shard_id_def get_lock_def lookup2_def get_current_count_def l2_norm_def
  exact_knn_def cosine_distance_def sort_results_def similarity_def number_def Let_def

text \<open>
  C8. \<open>search\<close> returns the empty list, and raises nothing, whenever the collection is
  absent, the addressed shard is absent, the shard's index is empty, \<open>k \<le> 0\<close>, or the
  query has zero L2 norm. This holds for every kernel: the kernel is not called.
\<close>

theorem search_empty_cases:
  assumes "map_of (indices e) c = None
     \<or> lookup2 (indices e) c (normalize_shard_id s) = None
     \<or> (\<exists>index. lookup2 (indices e) c (normalize_shard_id s) = Some index
           \<and> get_current_count index = 0)
     \<or> k \<le> 0 \<or> l2_norm q = 0"
  shows "fst (search knn nan_order e c q k s) = Inr []"
  using assms by (auto simp: search_def lookup2_def Let_def split: option.splits sum.splits)

theorem search_empty_cases_witness:
  "l2_norm [0, 0, 0, 0] = 0
   \<and> fst (search failing_knn left_as_is scenario1 ''c1'' [0, 0, 0, 0] 5 None) = Inr []
   \<and> fst (search failing_knn left_as_is scenario1 ''c1'' [1, 0, 0, 0] 0 None) = Inr []
   \<and> fst (search failing_knn left_as_is scenario1 ''c1'' [1, 0, 0, 0] 5 (Some ''x'')) = Inr []
   \<and> fst (search failing_knn left_as_is scenario1 ''c2'' [1, 0, 0, 0] 5 None) = Inr []"
proof -
  have z: "l2_norm [0, 0, 0, 0] = 0" by (simp add: l2_norm_def)
  have x: "lookup2 (indices scenario1) ''c1'' (normalize_shard_id (Some ''x'')) = None"
    by (simp add: scenario1_eq lookup2_def normalize_shard_id_def)
  have c2: "map_of (indices scenario1) ''c2'' = None" by (simp add: scenario1_eq)
  show ?thesis
    using z
      search_empty_cases [of scenario1 "''c1''" None 5 "[0, 0, 0, 0]" failing_knn left_as_is]
      search_empty_cases [of scenario1 "''c1''" None 0 "[1, 0, 0, 0]" failing_knn left_as_is]
      search_empty_cases [of scenario1 "''c1''" "Some ''x''" 5 "[1, 0, 0, 0]" failing_knn
        left_as_is] x
      search_empty_cases [of scenario1 "''c2''" None 5 "[1, 0, 0, 0]" failing_knn left_as_is] c2
    by simp
qed




text \<open>
  C10. No search returns the empty doc id. For a search that reaches the kernel, the
  results are exactly the hits whose label has an entry in the shard's id map with a
  nonempty doc id, each with score \<^verbatim>\<open>1.0 - distance\<close>: a hit without an entry, or
  mapped to the empty string, is dropped without an error. So fewer than
  \<open>min k current_count\<close> results may come back from a nonempty shard with \<open>k > 0\<close>:
  the engine \<open>unnamed_doc\<close>, whose only vector has the doc id \<open>''''\<close>, answers a search
  for that very vector with \<open>k = 1\<close> by the empty list.
\<close>

theorem search_drops_unmapped:
  "(fst (search knn nan_order e c q k s) = Inr results \<longrightarrow> [] \<notin> fst ` set results)
 \<and> (lookup2 (indices e) c (normalize_shard_id s) = Some index
    \<and> lookup2 (id_maps e) c (normalize_shard_id s) = Some id_map
    \<and> 0 < k \<and> get_current_count index \<noteq> 0 \<and> l2_norm q \<noteq> 0
    \<and> knn index (map (\<lambda>x. x / l2_norm q) q) (min k (get_current_count index)) = Inr hits
    \<longrightarrow> (\<exists>rs. fst (search knn nan_order e c q k s) = Inr rs
          \<and> set rs = {(doc_id, similarity distance) | label distance doc_id.
                (label, distance) \<in> set hits \<and> map_of id_map label = Some doc_id
                \<and> doc_id \<noteq> []}))
 \<and> (get_total_vectors unnamed_doc = 1
    \<and> fst (search exact_knn left_as_is unnamed_doc ''c1'' [1, 0, 0, 0] 1 None) = Inr [])"
proof (intro conjI impI)
  assume "fst (search knn nan_order e c q k s) = Inr results"
  then have "results = [] \<or> (\<exists>m hits. results = sort_results nan_order (convert_hits m hits))"
    by (auto simp: search_def Let_def split: option.splits if_splits sum.splits)
  then show "[] \<notin> fst ` set results"
    by (auto simp: set_sort_results set_convert_hits)
next
  assume a: "lookup2 (indices e) c (normalize_shard_id s) = Some index
    \<and> lookup2 (id_maps e) c (normalize_shard_id s) = Some id_map
    \<and> 0 < k \<and> get_current_count index \<noteq> 0 \<and> l2_norm q \<noteq> 0
    \<and> knn index (map (\<lambda>x. x / l2_norm q) q) (min k (get_current_count index)) = Inr hits"
  then have "fst (search knn nan_order e c q k s)
      = Inr (sort_results nan_order (convert_hits id_map hits))"
    by (auto simp: search_def Let_def lookup2_def get_lock_def split: option.splits)
  then show "\<exists>rs. fst (search knn nan_order e c q k s) = Inr rs
          \<and> set rs = {(doc_id, similarity distance) | label distance doc_id.
                (label, distance) \<in> set hits \<and> map_of id_map label = Some doc_id
                \<and> doc_id \<noteq> []}"
    by (simp add: set_sort_results set_convert_hits)
next
  show "get_total_vectors unnamed_doc = 1"
    by (simp add: unnamed_doc_eq get_total_vectors_def get_current_count_def)
next
  show "fst (search exact_knn left_as_is unnamed_doc ''c1'' [1, 0, 0, 0] 1 None) = Inr []"
    by (simp add: unnamed_doc_eq search_unfold)
qed

theorem search_drops_unmapped_witness:
  "\<exists>rs. fst (search exact_knn left_as_is scenario1 ''c1'' [0, 1, 0, 0] 1 None) = Inr rs
      \<and> set rs = {(''b'', Number 1)} \<and> [] \<notin> fst ` set rs"
proof -
  let ?index = "\<lparr>index_dim = 4, max_elements = 1000000,
        index_items = [(0, [1, 0, 0, 0]), (1, [0, 1, 0, 0]), (2, [0, 0, 1, 0::real])]\<rparr>"
  let ?id_map = "[(0, ''a''), (1, ''b''), (2, ''c'')]"
  have pre: "lookup2 (indices scenario1) ''c1'' (normalize_shard_id None) = Some ?index
    \<and> lookup2 (id_maps scenario1) ''c1'' (normalize_shard_id None) = Some ?id_map
    \<and> (0::int) < 1 \<and> get_current_count ?index \<noteq> 0 \<and> l2_norm [0, 1, 0, 0] \<noteq> 0
    \<and> exact_knn ?index (map (\<lambda>x. x / l2_norm [0, 1, 0, 0]) [0, 1, 0, 0])
         (min 1 (get_current_count ?index)) = Inr [(1, Number 0)]"
    by (simp add: scenario1_eq lookup2_def normalize_shard_id_def get_current_count_def
        l2_norm_def exact_knn_def cosine_distance_def)
  have "{(doc_id, similarity distance) | label distance doc_id.
           (label, distance) \<in> set [(1::int, Number 0)] \<and> map_of ?id_map label = Some doc_id
           \<and> doc_id \<noteq> []} = {(''b'', Number 1)}"
    by (auto simp: similarity_def)
  with pre search_drops_unmapped [of exact_knn left_as_is scenario1 "''c1''" "[0, 1, 0, 0]" 1
      None "[]" ?index ?id_map "[(1, Number 0)]"]
  obtain rs where rs: "fst (search exact_knn left_as_is scenario1 ''c1'' [0, 1, 0, 0] 1 None)
        = Inr rs"
      "set rs = {(''b'', Number 1)}"
    by auto
  from search_drops_unmapped [of exact_knn left_as_is scenario1 "''c1''" "[0, 1, 0, 0]" 1 None rs]
    rs(1)
  have "[] \<notin> fst ` set rs" by blast
  with rs show ?thesis by blast
qed

section \<open>The id map and the counter of a shard\<close>

lemma lookup2_update:
  "lookup2 (AList.update c sh m) c' s' = (if c' = c then map_of sh s' else lookup2 m c' s')"
  by (simp add: lookup2_def update_conv')

lemma lookup2_replace2:
  "lookup2 (replace2 m c s f) c' s' =
     (if c' = c \<and> s' = s then map_option f (lookup2 m c s) else lookup2 m c' s')"
  by (auto simp: lookup2_def replace2_def map_of_map_entry split: option.splits)

lemma map_of_replace2_None:
  "(map_of (replace2 m c s f) c' = None) = (map_of m c' = None)"
  by (auto simp: replace2_def map_of_map_entry split: option.splits)

lemma store2_Some:
  assumes "store2 m c s v = Some m'"
  shows "lookup2 m' c' s' = (if c' = c \<and> s' = s then Some v else lookup2 m c' s')"
    and "(map_of m' c' = None) = (map_of m c' = None)"
proof -
  from assms obtain sh where sh: "map_of m c = Some sh"
      and m': "m' = AList.update c (AList.update s v sh) m"
    by (auto simp: store2_def split: option.splits)
  show "lookup2 m' c' s' = (if c' = c \<and> s' = s then Some v else lookup2 m c' s')"
    by (cases "c' = c") (simp_all add: m' lookup2_def update_conv' sh)
  show "(map_of m' c' = None) = (map_of m c' = None)"
    by (cases "c' = c") (simp_all add: m' update_conv' sh)
qed

lemma store2_None: "(store2 m c s v = None) = (map_of m c = None)"
  by (simp add: store2_def split: option.splits)

lemma shard_inv_get_lock: "shard_inv (get_lock e c s) = shard_inv e"
  by (simp add: shard_inv_def get_lock_def Let_def)

lemma map_of_None_iff: "(map_of m c = None) = (c \<notin> fst ` set m)"
  by (simp add: map_of_eq_None_iff)

lemma shard_inv_ensure_collection:
  assumes "shard_inv e"
  shows "shard_inv (ensure_collection e c)" and "map_of (indices (ensure_collection e c)) c \<noteq> None"
  using assms
  by (auto simp: shard_inv_def ensure_collection_def lookup2_update update_conv' map_of_None_iff[symmetric])

lemma shard_inv_ensure_shard:
  assumes inv: "shard_inv e" and c: "map_of (indices e) c \<noteq> None"
    and r: "ensure_shard e c s = (r, e')"
  shows "r = None \<and> shard_inv e' \<and> lookup2 (indices e') c s \<noteq> None"
proof -
  from c obtain shards where sh: "map_of (indices e) c = Some shards" by auto
  show ?thesis
  proof (cases "s \<in> fst ` set shards")
    case True
    with sh r have "r = None" "e' = e" by (auto simp: ensure_shard_def)
    moreover from True sh have "lookup2 (indices e) c s \<noteq> None"
      by (simp add: lookup2_def map_of_None_iff)
    ultimately show ?thesis using inv by simp
  next
    case False
    from inv sh obtain im0 ni0 where im0: "map_of (id_maps e) c = Some im0"
        and ni0: "map_of (next_ids e) c = Some ni0"
      by (auto simp: shard_inv_def)
    let ?ix = "AList.update c (AList.update s (init_index (embedding_dim e)) shards) (indices e)"
    let ?im = "AList.update c (AList.update s [] im0) (id_maps e)"
    let ?ni = "AList.update c (AList.update s 0 ni0) (next_ids e)"
    from False sh im0 ni0 r have r': "r = None"
        and e': "e' = e\<lparr>indices := ?ix, id_maps := ?im, next_ids := ?ni\<rparr>"
      by (auto simp: ensure_shard_def store2_def Let_def)
    have ix: "\<And>c' s'. lookup2 ?ix c' s' =
        (if c' = c \<and> s' = s then Some (init_index (embedding_dim e)) else lookup2 (indices e) c' s')"
      by (auto simp: lookup2_def update_conv' sh)
    have im: "\<And>c' s'. lookup2 ?im c' s' =
        (if c' = c \<and> s' = s then Some [] else lookup2 (id_maps e) c' s')"
      by (auto simp: lookup2_def update_conv' im0)
    have ni: "\<And>c' s'. lookup2 ?ni c' s' =
        (if c' = c \<and> s' = s then Some 0 else lookup2 (next_ids e) c' s')"
      by (auto simp: lookup2_def update_conv' ni0)
    have "shard_inv e'"
      unfolding shard_inv_def e' using inv
      by (auto simp: ix im ni update_conv' shard_inv_def)
    with r' show ?thesis by (simp add: e' ix)
  qed
qed

lemma set_internal_ids:
  "set (map (\<lambda>i. n + int i) [0..<k]) = {n..<n + int k}"
proof -
  have "(\<lambda>i. n + int i) ` {0..<k} = {n..<n + int k}"
  proof (intro equalityI subsetI)
    fix x assume "x \<in> {n..<n + int k}"
    then have "x = n + int (nat (x - n))" "nat (x - n) \<in> {0..<k}" by auto
    then show "x \<in> (\<lambda>i. n + int i) ` {0..<k}" by blast
  qed auto
  then show ?thesis by simp
qed

lemma id_map_updates:
  assumes "distinct (map fst m)" and "fst ` set m = {0..<n}" and "0 \<le> n"
  shows "distinct (map fst (AList.updates (map (\<lambda>i. n + int i) [0..<length ds]) ds m))"
    and "fst ` set (AList.updates (map (\<lambda>i. n + int i) [0..<length ds]) ds m)
           = {0..<n + int (length ds)}"
proof -
  let ?ids = "map (\<lambda>i. n + int i) [0..<length ds]"
  show "distinct (map fst (AList.updates ?ids ds m))"
    using assms(1) by (rule distinct_updates)
  have "fst ` set (AList.updates ?ids ds m) = dom (map_of (AList.updates ?ids ds m))"
    by (simp add: dom_map_of_conv_image_fst)
  also have "\<dots> = set (take (length ds) ?ids) \<union> dom (map_of m)"
    by (simp only: updates_conv' dom_map_upds)
  also have "take (length ds) ?ids = ?ids" by simp
  also have "dom (map_of m) = {0..<n}"
    using assms(2) by (simp add: dom_map_of_conv_image_fst)
  also have "set ?ids \<union> {0..<n} = {0..<n + int (length ds)}"
    unfolding set_internal_ids using assms(3) by auto
  finally show "fst ` set (AList.updates ?ids ds m) = {0..<n + int (length ds)}" .
qed

lemma shard_inv_insert_batch:
  assumes inv: "shard_inv e" and r: "insert_batch e c s v ds = (r, e')"
  shows "shard_inv e'"
proof (cases "lookup2 (indices e) c s")
  case None
  with r show ?thesis using inv by (simp add: insert_batch_def)
next
  case (Some index)
  with inv obtain m n where m: "lookup2 (id_maps e) c s = Some m"
      and n: "lookup2 (next_ids e) c s = Some n" and n0: "0 \<le> n"
      and dm: "distinct (map fst m)" and km: "fst ` set m = {0..<n}"
    unfolding shard_inv_def by (metis option.distinct(1))
  let ?ids = "map (\<lambda>i. n + int i) [0..<length ds]"
  obtain failure index' where ai: "add_items index (zip (map normalize_row (rows v)) ?ids) = (failure, index')"
    by (cases "add_items index (zip (map normalize_row (rows v)) ?ids)") auto
  let ?e1 = "e\<lparr>indices := replace2 (indices e) c s (\<lambda>_. index')\<rparr>"
  have inv1: "shard_inv ?e1"
    using inv unfolding shard_inv_def
    by (simp add: lookup2_replace2 map_of_replace2_None Some)
  show ?thesis
  proof (cases failure)
    case (Some err)
    with r \<open>lookup2 (indices e) c s = Some index\<close> n ai have "e' = ?e1"
      by (simp add: insert_batch_def Let_def)
    with inv1 show ?thesis by simp
  next
    case None
    show ?thesis
    proof (cases "ds = []")
      case True
      with r \<open>lookup2 (indices e) c s = Some index\<close> n ai None
      have e': "e' = ?e1\<lparr>next_ids := replace2 (next_ids e) c s (\<lambda>k. k + int (length ds))\<rparr>"
        by (simp add: insert_batch_def Let_def)
      show ?thesis
        using inv1 True n m n0 dm km unfolding shard_inv_def e'
        by (auto simp: lookup2_replace2 map_of_replace2_None)
    next
      case False
      then have "zip ?ids ds \<noteq> []" by (cases ds) (simp_all add: upt_rec)
      with r \<open>lookup2 (indices e) c s = Some index\<close> n m ai None
      have e': "e' = ?e1\<lparr>id_maps := replace2 (id_maps e) c s (AList.updates ?ids ds),
                       next_ids := replace2 (next_ids e) c s (\<lambda>k. k + int (length ds))\<rparr>"
        by (simp add: insert_batch_def Let_def)
      show ?thesis
        using inv1 n m n0 id_map_updates[OF dm km n0, of ds] unfolding shard_inv_def e'
        by (auto simp: lookup2_replace2 map_of_replace2_None)
    qed
  qed
qed

lemma shard_inv_add_vectors:
  assumes "shard_inv e"
  shows "shard_inv (snd (add_vectors e c v ds s))"
proof -
  let ?e2 = "ensure_collection (get_lock e c s) c"
  have inv2: "shard_inv ?e2" and c2: "map_of (indices ?e2) c \<noteq> None"
    using assms by (simp_all add: shard_inv_ensure_collection shard_inv_get_lock)
  obtain r e3 where es: "ensure_shard ?e2 c (normalize_shard_id s) = (r, e3)"
    by (cases "ensure_shard ?e2 c (normalize_shard_id s)") auto
  from shard_inv_ensure_shard[OF inv2 c2 es] have r: "r = None" and inv3: "shard_inv e3"
    by simp_all
  obtain r' e4 where ib: "insert_batch e3 c (normalize_shard_id s) v ds = (r', e4)"
    by (cases "insert_batch e3 c (normalize_shard_id s) v ds") auto
  from shard_inv_insert_batch[OF inv3 ib] have "shard_inv e4" .
  then show ?thesis
    using assms es r ib by (simp add: add_vectors_def Let_def)
qed

lemma shard_inv_new_engine: "shard_inv (new_engine d g)"
  by (simp add: shard_inv_def new_engine_def lookup2_def)

lemma reachable_shard_inv: "reachable e \<Longrightarrow> shard_inv e"
  by (induction rule: reachable.induct) (simp_all add: shard_inv_new_engine shard_inv_add_vectors)


lemma map_upds_nth:
  "distinct xs \<Longrightarrow> length xs = length ys \<Longrightarrow> i < length ys
     \<Longrightarrow> (m(xs [\<mapsto>] ys)) (xs ! i) = Some (ys ! i)"
proof (induction xs arbitrary: ys m i)
  case Nil
  then show ?case by simp
next
  case (Cons x xs)
  then obtain y ys' where ys: "ys = y # ys'" by (cases ys) auto
  show ?case
  proof (cases i)
    case 0
    with Cons.prems ys show ?thesis by simp
  next
    case (Suc j)
    with Cons.prems ys have "xs ! j \<in> set xs" by simp
    with Cons.prems have "xs ! j \<noteq> x" by auto
    with Suc Cons.prems ys Cons.IH[of ys' j m] show ?thesis by simp
  qed
qed


lemma map_of_updates_fresh:
  assumes "i < length ds"
  shows "map_of (AList.updates (map (\<lambda>i. n + int i) [0..<length ds]) ds m) (n + int i) = Some (ds ! i)"
proof -
  let ?ids = "map (\<lambda>i. n + int i) [0..<length ds]"
  have d: "distinct ?ids" by (simp add: distinct_map inj_on_def)
  have "map_of (AList.updates ?ids ds m) (n + int i) = ((map_of m)(?ids [\<mapsto>] ds)) (?ids ! i)"
    using assms by (simp add: updates_conv')
  also have "\<dots> = Some (ds ! i)"
    using d assms by (simp add: map_upds_nth del: nth_map)
  finally show ?thesis .
qed

lemma insert_batch_assigns:
  assumes inv: "shard_inv e" and ix: "lookup2 (indices e) c s \<noteq> None"
    and r: "insert_batch e c s v ds = (None, e')"
  shows "\<exists>start id_map'. lookup2 (next_ids e) c s = Some start
       \<and> lookup2 (next_ids e') c s = Some (start + int (length ds))
       \<and> lookup2 (id_maps e') c s = Some id_map'
       \<and> (\<forall>i < length ds. map_of id_map' (start + int i) = Some (ds ! i))"
proof -
  from ix obtain index where Some: "lookup2 (indices e) c s = Some index" by auto
  with inv obtain m n where m: "lookup2 (id_maps e) c s = Some m"
      and n: "lookup2 (next_ids e) c s = Some n"
    unfolding shard_inv_def by (metis option.distinct(1))
  let ?ids = "map (\<lambda>i. n + int i) [0..<length ds]"
  obtain failure index' where ai: "add_items index (zip (map normalize_row (rows v)) ?ids) = (failure, index')"
    by (cases "add_items index (zip (map normalize_row (rows v)) ?ids)") auto
  from r Some n ai have f: "failure = None"
    by (cases failure) (simp_all add: insert_batch_def Let_def)
  let ?e1 = "e\<lparr>indices := replace2 (indices e) c s (\<lambda>_. index')\<rparr>"
  show ?thesis
  proof (cases "ds = []")
    case True
    with r Some n ai f
    have e': "e' = ?e1\<lparr>next_ids := replace2 (next_ids e) c s (\<lambda>k. k + int (length ds))\<rparr>"
      by (simp add: insert_batch_def Let_def)
    show ?thesis using True n m by (simp add: e' lookup2_replace2)
  next
    case False
    then have "zip ?ids ds \<noteq> []" by (cases ds) (simp_all add: upt_rec)
    with r Some n m ai f
    have e': "e' = ?e1\<lparr>id_maps := replace2 (id_maps e) c s (AList.updates ?ids ds),
                     next_ids := replace2 (next_ids e) c s (\<lambda>k. k + int (length ds))\<rparr>"
      by (simp add: insert_batch_def Let_def)
    show ?thesis using n m by (simp add: e' lookup2_replace2 map_of_updates_fresh)
  qed
qed

lemma ensure_shard_next_id:
  assumes inv: "shard_inv e" and c: "map_of (indices e) c \<noteq> None"
    and r: "ensure_shard e c s = (r, e')"
  shows "lookup2 (next_ids e') c s =
      (if lookup2 (indices e) c s = None then Some 0 else lookup2 (next_ids e) c s)"
proof -
  from c obtain shards where sh: "map_of (indices e) c = Some shards" by auto
  show ?thesis
  proof (cases "s \<in> fst ` set shards")
    case True
    with sh r have "e' = e" by (auto simp: ensure_shard_def)
    moreover from True sh have "lookup2 (indices e) c s \<noteq> None"
      by (simp add: lookup2_def map_of_None_iff)
    ultimately show ?thesis by auto
  next
    case False
    from inv sh obtain im0 ni0 where im0: "map_of (id_maps e) c = Some im0"
        and ni0: "map_of (next_ids e) c = Some ni0"
      by (auto simp: shard_inv_def)
    from False sh im0 ni0 r have "next_ids e' = AList.update c (AList.update s 0 ni0) (next_ids e)"
      by (auto simp: ensure_shard_def store2_def Let_def)
    moreover from False sh have "lookup2 (indices e) c s = None"
      by (simp add: lookup2_def map_of_None_iff)
    ultimately show ?thesis by (simp add: lookup2_def update_conv')
  qed
qed

lemma ensure_collection_lookup:
  "lookup2 (indices (ensure_collection e c)) c' s' = lookup2 (indices e) c' s'"
  "lookup2 (indices e) c' s' \<noteq> None \<Longrightarrow>
     lookup2 (next_ids (ensure_collection e c)) c' s' = lookup2 (next_ids e) c' s'"
proof -
  show "lookup2 (indices (ensure_collection e c)) c' s' = lookup2 (indices e) c' s'"
    by (cases "c' = c")
       (auto simp: ensure_collection_def lookup2_def update_conv' map_of_None_iff[symmetric])
  assume "lookup2 (indices e) c' s' \<noteq> None"
  then show "lookup2 (next_ids (ensure_collection e c)) c' s' = lookup2 (next_ids e) c' s'"
    by (cases "c' = c")
       (auto simp: ensure_collection_def lookup2_def update_conv' map_of_None_iff[symmetric])
qed

lemma add_vectors_assigns_ids:
  assumes inv: "shard_inv e" and r: "add_vectors e c v ds s = (None, e')"
  shows "\<exists>id_map'.
         lookup2 (next_ids e') c (normalize_shard_id s) =
           Some ((case lookup2 (indices e) c (normalize_shard_id s) of
                    None \<Rightarrow> 0
                  | Some _ \<Rightarrow> the (lookup2 (next_ids e) c (normalize_shard_id s))) + int (length ds))
       \<and> lookup2 (id_maps e') c (normalize_shard_id s) = Some id_map'
       \<and> (\<forall>i < length ds. map_of id_map'
             ((case lookup2 (indices e) c (normalize_shard_id s) of
                    None \<Rightarrow> 0
                  | Some _ \<Rightarrow> the (lookup2 (next_ids e) c (normalize_shard_id s))) + int i) = Some (ds ! i))"
proof -
  let ?ns = "normalize_shard_id s"
  let ?e1 = "get_lock e c s"
  let ?e2 = "ensure_collection ?e1 c"
  have inv2: "shard_inv ?e2" and c2: "map_of (indices ?e2) c \<noteq> None"
    using inv by (simp_all add: shard_inv_ensure_collection shard_inv_get_lock)
  obtain r3 e3 where es: "ensure_shard ?e2 c ?ns = (r3, e3)"
    by (cases "ensure_shard ?e2 c ?ns") auto
  from shard_inv_ensure_shard[OF inv2 c2 es] have r3: "r3 = None" and inv3: "shard_inv e3"
      and ix3: "lookup2 (indices e3) c ?ns \<noteq> None"
    by simp_all
  from r es r3 have ib: "insert_batch e3 c ?ns v ds = (None, e')"
    by (simp add: add_vectors_def Let_def split: if_splits)
  from insert_batch_assigns[OF inv3 ix3 ib] obtain start id_map' where
      st: "lookup2 (next_ids e3) c ?ns = Some start"
      and n': "lookup2 (next_ids e') c ?ns = Some (start + int (length ds))"
      and m': "lookup2 (id_maps e') c ?ns = Some id_map'"
      and ent: "\<forall>i < length ds. map_of id_map' (start + int i) = Some (ds ! i)"
    by blast
  have l1: "indices ?e1 = indices e" "next_ids ?e1 = next_ids e"
    by (simp_all add: get_lock_def Let_def)
  have "start = (case lookup2 (indices e) c ?ns of None \<Rightarrow> 0
                  | Some _ \<Rightarrow> the (lookup2 (next_ids e) c ?ns))"
  proof (cases "lookup2 (indices e) c ?ns")
    case None
    then show ?thesis
      using st ensure_shard_next_id[OF inv2 c2 es] by (simp add: ensure_collection_lookup l1)
  next
    case (Some a)
    then show ?thesis
      using st ensure_shard_next_id[OF inv2 c2 es]
      by (simp add: ensure_collection_lookup l1)
  qed
  with n' m' ent show ?thesis by simp
qed

text \<open>
  C6. In every engine reachable from an empty one by \<^verbatim>\<open>add_vectors\<close> calls, every shard
  that has an index has an id map and a counter, and \<open>next_id\<close> is the number of entries
  of the id map (whose keys are \<open>0, ..., next_id - 1\<close>, each once). A successful call
  with \<open>n\<close> doc ids writes them under the internal ids \<open>start, ..., start + n - 1\<close>,
  where \<open>start\<close> is the shard's counter before the call (0 for a new shard), and leaves
  the counter at \<open>start + n\<close>.
\<close>

theorem next_id_is_id_map_size:
  assumes "reachable e"
  shows "(lookup2 (indices e) c s = Some index \<longrightarrow>
           (\<exists>id_map next_id.
               lookup2 (id_maps e) c s = Some id_map \<and> lookup2 (next_ids e) c s = Some next_id
             \<and> distinct (map fst id_map) \<and> next_id = int (length id_map)
             \<and> fst ` set id_map = {0..<next_id}))
       \<and> (add_vectors e c' v ds s' = (None, e') \<longrightarrow>
           (\<exists>start id_map'.
               (if lookup2 (indices e) c' (normalize_shard_id s') = None then start = 0
                else lookup2 (next_ids e) c' (normalize_shard_id s') = Some start)
             \<and> lookup2 (next_ids e') c' (normalize_shard_id s') = Some (start + int (length ds))
             \<and> lookup2 (id_maps e') c' (normalize_shard_id s') = Some id_map'
             \<and> (\<forall>i < length ds. map_of id_map' (start + int i) = Some (ds ! i))))"
proof (intro conjI impI)
  assume ix: "lookup2 (indices e) c s = Some index"
  from reachable_shard_inv[OF assms] ix
  obtain m n where m: "lookup2 (id_maps e) c s = Some m"
      and n: "lookup2 (next_ids e) c s = Some n" and n0: "0 \<le> n"
      and dm: "distinct (map fst m)" and km: "fst ` set m = {0..<n}"
    unfolding shard_inv_def by (metis option.distinct(1))
  have "length m = card (fst ` set m)"
    using dm by (metis distinct_card length_map set_map)
  also have "\<dots> = nat n" by (simp add: km)
  finally have "n = int (length m)" using n0 by simp
  with m n dm km show "\<exists>id_map next_id.
               lookup2 (id_maps e) c s = Some id_map \<and> lookup2 (next_ids e) c s = Some next_id
             \<and> distinct (map fst id_map) \<and> next_id = int (length id_map)
             \<and> fst ` set id_map = {0..<next_id}" by blast
next
  let ?ns = "normalize_shard_id s'"
  assume r: "add_vectors e c' v ds s' = (None, e')"
  have inv: "shard_inv e" by (rule reachable_shard_inv[OF assms])
  from add_vectors_assigns_ids[OF inv r] obtain id_map' where
      n': "lookup2 (next_ids e') c' ?ns =
           Some ((case lookup2 (indices e) c' ?ns of None \<Rightarrow> 0
                  | Some _ \<Rightarrow> the (lookup2 (next_ids e) c' ?ns)) + int (length ds))"
      and m': "lookup2 (id_maps e') c' ?ns = Some id_map'"
      and ent: "\<forall>i < length ds. map_of id_map'
             ((case lookup2 (indices e) c' ?ns of None \<Rightarrow> 0
                  | Some _ \<Rightarrow> the (lookup2 (next_ids e) c' ?ns)) + int i) = Some (ds ! i)"
    by blast
  let ?start = "case lookup2 (indices e) c' ?ns of None \<Rightarrow> 0
                  | Some _ \<Rightarrow> the (lookup2 (next_ids e) c' ?ns)"
  have "if lookup2 (indices e) c' ?ns = None then ?start = 0
        else lookup2 (next_ids e) c' ?ns = Some ?start"
  proof (cases "lookup2 (indices e) c' ?ns")
    case None
    then show ?thesis by simp
  next
    case (Some a)
    with inv obtain n where "lookup2 (next_ids e) c' ?ns = Some n"
      unfolding shard_inv_def by (metis option.distinct(1))
    with Some show ?thesis by simp
  qed
  with n' m' ent show "\<exists>start id_map'.
               (if lookup2 (indices e) c' ?ns = None then start = 0
                else lookup2 (next_ids e) c' ?ns = Some start)
             \<and> lookup2 (next_ids e') c' ?ns = Some (start + int (length ds))
             \<and> lookup2 (id_maps e') c' ?ns = Some id_map'
             \<and> (\<forall>i < length ds. map_of id_map' (start + int i) = Some (ds ! i))"
    by blast
qed

theorem next_id_is_id_map_size_witness:
  "reachable scenario1
   \<and> (\<exists>id_map next_id.
         lookup2 (id_maps scenario1) ''c1'' ''default'' = Some id_map
       \<and> lookup2 (next_ids scenario1) ''c1'' ''default'' = Some next_id
       \<and> next_id = int (length id_map) \<and> next_id = 3)
   \<and> (\<exists>id_map'. lookup2 (next_ids scenario1) ''c1'' ''default'' = Some (0 + int 3)
       \<and> lookup2 (id_maps scenario1) ''c1'' ''default'' = Some id_map'
       \<and> map_of id_map' 1 = Some ''b'')"
proof -
  let ?v = "\<lparr>shape1 = 4, rows = [[1, 0, 0, 0], [0, 1, 0, 0], [0, 0, 1, 0::real]]\<rparr>"
  let ?index = "\<lparr>index_dim = 4, max_elements = 1000000,
        index_items = [(0, [1, 0, 0, 0]), (1, [0, 1, 0, 0]), (2, [0, 0, 1, 0::real])]\<rparr>"
  have r0: "reachable (new_engine 4 1)" by (rule reachable.start)
  have r1: "reachable scenario1" unfolding scenario1_def by (rule reachable.step[OF r0])
  have ix: "lookup2 (indices scenario1) ''c1'' ''default'' = Some ?index"
    by (simp add: scenario1_eq lookup2_def)
  have run: "add_vectors (new_engine 4 1) ''c1'' ?v [''a'', ''b'', ''c''] None = (None, scenario1)"
    by (simp add: scenario1_eq) (simp add: add_vectors_unfold)
  have fresh: "lookup2 (indices (new_engine 4 1)) ''c1'' (normalize_shard_id None) = None"
    by (simp add: new_engine_def lookup2_def)
  have ns: "normalize_shard_id None = ''default''" by (simp add: normalize_shard_id_def)
  from next_id_is_id_map_size[OF r1, of "''c1''" "''default''" ?index] ix
  have a: "\<exists>id_map next_id.
         lookup2 (id_maps scenario1) ''c1'' ''default'' = Some id_map
       \<and> lookup2 (next_ids scenario1) ''c1'' ''default'' = Some next_id
       \<and> next_id = int (length id_map) \<and> next_id = 3"
    by (auto simp: scenario1_eq lookup2_def)
  from next_id_is_id_map_size[OF r0, of "''c1''" "''default''" ?index "''c1''" ?v "[''a'', ''b'', ''c'']" None scenario1]
    run fresh
  obtain id_map' where "lookup2 (next_ids scenario1) ''c1'' ''default'' = Some (0 + int 3)"
      "lookup2 (id_maps scenario1) ''c1'' ''default'' = Some id_map'"
      "\<forall>i < length [''a'', ''b'', ''c'']. map_of id_map' (0 + int i) = Some ([''a'', ''b'', ''c''] ! i)"
    by (auto simp: ns)
  then have b: "\<exists>id_map'. lookup2 (next_ids scenario1) ''c1'' ''default'' = Some (0 + int 3)
       \<and> lookup2 (id_maps scenario1) ''c1'' ''default'' = Some id_map'
       \<and> map_of id_map' 1 = Some ''b''"
    by (auto dest: spec[of _ 1])
  from r1 a b show ?thesis by blast
qed

section \<open>The \<open>k\<close> of the search handler\<close>

text \<open>
  C1, as the code has it. Whenever the search handler calls the engine, \<open>k\<close> is the
  \<^verbatim>\<open>top_k\<close> of the request; when the incoming message has no \<^verbatim>\<open>top_k\<close> field, \<open>k\<close> is
  10, the default declared by the \<^verbatim>\<open>SearchRequest\<close> model. The handler's own fallback of
  50 is never used. The response carries the results of exactly that search.
\<close>

theorem search_handler_k:
  assumes "search_call decode_query_vector message_dict = Inr (c, query_vector, k, s)"
  shows "k = (case msg_top_k message_dict of None \<Rightarrow> 10 | Some t \<Rightarrow> t)
       \<and> (\<exists>request. SearchRequest message_dict = Inr request \<and> k = top_k request
            \<and> c = collection_id request \<and> s = shard_id request)
       \<and> (\<forall>results e'. search knn nan_order e c query_vector k s = (Inr results, e') \<longrightarrow>
            (\<exists>r. fst (handle_search decode_query_vector knn nan_order node_id e message_dict)
                   = Inr \<lparr>resp_request_id = r, resp_node_id = node_id, resp_results = results\<rparr>))"
proof -
  from assms obtain request where rq: "SearchRequest message_dict = Inr request"
      and k: "k = top_k request" and c: "c = collection_id request" and s: "s = shard_id request"
    by (auto simp: search_call_def getattr_top_k_def Let_def split: sum.splits)
  from rq have t: "top_k request = (case msg_top_k message_dict of None \<Rightarrow> 10 | Some t \<Rightarrow> t)"
      and rid: "msg_request_id message_dict = Some (request_id request)"
    by (auto simp: SearchRequest_def split: option.splits list.splits)
  have "\<forall>results e'. search knn nan_order e c query_vector k s = (Inr results, e') \<longrightarrow>
            (\<exists>r. fst (handle_search decode_query_vector knn nan_order node_id e message_dict)
                   = Inr \<lparr>resp_request_id = r, resp_node_id = node_id, resp_results = results\<rparr>)"
    using assms rid by (simp add: handle_search_def)
  with rq k c s t show ?thesis by simp
qed

theorem search_handler_k_witness:
  "search_call unit_query (request_without_top_k\<lparr>msg_top_k := Some 2\<rparr>)
     = Inr (''c1'', [1, 0, 0, 0], 2, None)
   \<and> fst (handle_search unit_query exact_knn left_as_is ''n1'' scenario1
            (request_without_top_k\<lparr>msg_top_k := Some 2\<rparr>))
     = Inr \<lparr>resp_request_id = ''r1'', resp_node_id = ''n1'',
            resp_results = [(''a'', Number 1), (''b'', Number 0)]\<rparr>"
proof -
  let ?m = "request_without_top_k\<lparr>msg_top_k := Some 2\<rparr>"
  have call: "search_call unit_query ?m = Inr (''c1'', [1, 0, 0, 0], 2, None)"
    by (simp add: search_call_def SearchRequest_def request_without_top_k_def unit_query_def
        getattr_top_k_def)
  obtain e' where run: "search exact_knn left_as_is scenario1 ''c1'' [1, 0, 0, 0] 2 None
      = (Inr [(''a'', Number 1), (''b'', Number 0)], e')"
    by (simp add: scenario1_eq search_unfold)
  from search_handler_k [OF call, of exact_knn left_as_is scenario1 "''n1''"] run
  obtain r where r: "fst (handle_search unit_query exact_knn left_as_is ''n1'' scenario1 ?m)
      = Inr \<lparr>resp_request_id = r, resp_node_id = ''n1'',
             resp_results = [(''a'', Number 1), (''b'', Number 0)]\<rparr>"
    by blast
  have "fst (handle_search unit_query exact_knn left_as_is ''n1'' scenario1 ?m)
      = Inr \<lparr>resp_request_id = ''r1'', resp_node_id = ''n1'',
             resp_results = [(''a'', Number 1), (''b'', Number 0)]\<rparr>"
  proof -
    have rid: "msg_request_id ?m = Some ''r1''" by (simp add: request_without_top_k_def)
    show ?thesis by (simp add: handle_search_def call run rid Let_def)
  qed
  with call show ?thesis by simp
qed

text \<open>
  C1 as stated has 50 for a message without \<^verbatim>\<open>top_k\<close>. For such a message the engine
  is called with \<open>k = 10\<close>.
\<close>

theorem search_handler_default_counterexample:
  "msg_top_k request_without_top_k = None
   \<and> search_call unit_query request_without_top_k = Inr (''c1'', [1, 0, 0, 0], 10, None)
   \<and> search_call unit_query request_without_top_k \<noteq> Inr (''c1'', [1, 0, 0, 0], 50, None)"
  by (simp add: search_call_def SearchRequest_def request_without_top_k_def unit_query_def
      getattr_top_k_def)

section \<open>Encoding round trip\<close>

lemma f32_of_bytes_f32_bytes:
  "f32_of_bytes (ucast w) (ucast (drop_bit 8 w)) (ucast (drop_bit 16 w)) (ucast (drop_bit 24 w)) = (w :: float32)"
  unfolding f32_of_bytes_def
proof (rule bit_word_eqI)
  fix n assume "n < LENGTH(32)"
  then have n: "n < 32" by simp
  consider "n < 8" | "8 \<le> n" "n < 16" | "16 \<le> n" "n < 24" | "24 \<le> n"
    by linarith
  then show "bit (ucast (ucast w :: byte) OR push_bit 8 (ucast (ucast (drop_bit 8 w) :: byte))
               OR push_bit 16 (ucast (ucast (drop_bit 16 w) :: byte))
               OR push_bit 24 (ucast (ucast (drop_bit 24 w) :: byte)) :: float32) n = bit w n"
    using n by cases (auto simp: bit_simps)
qed

lemma frombuffer_tobytes: "frombuffer (tobytes ws) = Inr ws"
  by (induction ws) (simp_all add: tobytes_def f32_bytes_def f32_of_bytes_f32_bytes)

lemma reshape_own_shape:
  "wf_array a \<Longrightarrow> reshape (arr_data a) (arr_shape a) = Inr a"
  by (cases a) (auto simp: wf_array_def reshape_def Let_def)

text \<open>
  C5. For every float32 array \<open>V\<close> of shape \<open>(n, dim)\<close>, \<^verbatim>\<open>decode_vectors\<close> applied
  to the text and the shape returned by \<^verbatim>\<open>encode_vectors V\<close> yields \<open>V\<close>, bit for bit.
  The base64 codec and the compressor are any pair of encoder and decoder that
  round-trip, which is what the two libraries provide.
\<close>

theorem decode_encode_roundtrip:
  assumes "\<And>x. b64decode (b64encode x) = Inr x"
    and "\<And>x. decompress (compress x) = Inr x"
    and "wf_array V"
  shows "decode_vectors b64decode decompress
           (fst (encode_vectors compress b64encode V))
           (snd (encode_vectors compress b64encode V)) = Inr V"
  using assms
  by (simp add: decode_vectors_def encode_vectors_def Let_def frombuffer_tobytes reshape_own_shape)

lemma text_codec: "bytes_of_text (text_of_bytes x) = Inr x"
proof -
  have "word_of_nat (of_char (char_of (unat b))) = b" for b :: byte
  proof -
    have "unat b < 256" using unsigned_less[of b, where 'a=nat] by simp
    then show ?thesis by simp
  qed
  then show ?thesis by (simp add: bytes_of_text_def text_of_bytes_def map_idI)
qed

lemma mark_codec: "unmark (mark x) = Inr x"
  by (simp add: mark_def unmark_def)

theorem decode_encode_roundtrip_witness:
  "wf_array \<lparr>arr_shape = (1, 2), arr_data = [0x3F800000, 0]\<rparr>
   \<and> decode_vectors bytes_of_text unmark
        (fst (encode_vectors mark text_of_bytes \<lparr>arr_shape = (1, 2), arr_data = [0x3F800000, 0]\<rparr>))
        (snd (encode_vectors mark text_of_bytes \<lparr>arr_shape = (1, 2), arr_data = [0x3F800000, 0]\<rparr>))
       = Inr \<lparr>arr_shape = (1, 2), arr_data = [0x3F800000, 0]\<rparr>
   \<and> snd (encode_vectors mark text_of_bytes \<lparr>arr_shape = (1, 2), arr_data = [0x3F800000, 0]\<rparr>)
       = (1, 2)
   \<and> length (fst (encode_vectors mark text_of_bytes
        \<lparr>arr_shape = (1, 2), arr_data = [0x3F800000, 0]\<rparr>)) = 9"
proof -
  let ?V = "\<lparr>arr_shape = (1, 2), arr_data = [0x3F800000, 0 :: float32]\<rparr>"
  have wf: "wf_array ?V" by (simp add: wf_array_def)
  have enc: "snd (encode_vectors mark text_of_bytes ?V) = (1, 2)"
      "length (fst (encode_vectors mark text_of_bytes ?V)) = 9"
    by (simp_all add: encode_vectors_def tobytes_def f32_bytes_def mark_def text_of_bytes_def
        Let_def)
  from decode_encode_roundtrip [of bytes_of_text text_of_bytes unmark mark ?V,
      OF text_codec mark_codec wf]
  show ?thesis using wf enc by simp
qed

section \<open>Challenge chunks\<close>

lemma length_digest: "length (digest w) = 32"
  by (simp add: digest_def)

lemma chunk_by_spec_nonpos: "len \<le> 0 \<Longrightarrow> chunk_by_spec sha seed start len = []"
  by (simp add: chunk_by_spec_def)

lemma chunk_by_spec_short:
  assumes "0 < len" "len < 32"
  shows "chunk_by_spec sha seed start len = take (nat len) (digest (sha (seed @ big_endian_uint64 start)))"
proof -
  from assms have "(len + 31) div 32 = 1" by simp
  then show ?thesis by (simp add: chunk_by_spec_def)
qed

lemma chunk_by_spec_step:
  assumes "32 \<le> len"
  shows "chunk_by_spec sha seed start len
       = digest (sha (seed @ big_endian_uint64 start)) @ chunk_by_spec sha seed (start + 32) (len - 32)"
proof -
  let ?f = "\<lambda>j. digest (sha (seed @ big_endian_uint64 (start + 32 * int j)))"
  let ?k = "nat ((len - 32 + 31) div 32)"
  from assms have k: "nat ((len + 31) div 32) = Suc ?k" by linarith
  have "[0..<Suc ?k] = 0 # map Suc [0..<?k]"
    by (simp add: upt_conv_Cons map_Suc_upt del: upt_Suc)
  then have "concat (map ?f [0..<Suc ?k]) = ?f 0 @ concat (map (\<lambda>j. ?f (Suc j)) [0..<?k])"
    by (simp add: comp_def del: upt_Suc)
  moreover have "(\<lambda>j. ?f (Suc j)) = (\<lambda>j. digest (sha (seed @ big_endian_uint64 (start + 32 + 32 * int j))))"
    by (simp add: algebra_simps)
  moreover from assms have "nat len = 32 + nat (len - 32)" by simp
  ultimately show ?thesis
    unfolding chunk_by_spec_def k by (simp add: length_digest del: upt_Suc)
qed

lemma length_chunk_by_spec: "int (length (chunk_by_spec sha seed start len)) = max 0 len"
proof -
  let ?k = "nat ((len + 31) div 32)"
  have "length (concat (map (\<lambda>j. digest (sha (seed @ big_endian_uint64 (start + 32 * int j)))) [0..<?k]))
      = 32 * ?k"
    by (simp add: length_concat comp_def length_digest sum_list_triv)
  moreover have "nat len \<le> 32 * ?k" by linarith
  ultimately show ?thesis by (simp add: chunk_by_spec_def)
qed

lemma div32_step: "(r - 1) div 32 = (r - 33) div 32 + (1::int)"
proof -
  have "r - 1 = (r - 33) + 1 * 32" by simp
  then have "(r - 1) div 32 = ((r - 33) + 1 * 32) div 32" by simp
  also have "\<dots> = (r - 33) div 32 + 1" by (simp only: div_mult_self3)
  finally show ?thesis .
qed

lemma chunk_loop_spec:
  "offset_fits (cs - int (length cd)) off \<Longrightarrow>
   chunk_loop sha seed cs cd off
     = Inr (cd @ chunk_by_spec sha seed off (cs - int (length cd)))"
proof (induction sha seed cs cd off rule: chunk_loop.induct)
  case (1 sha seed cs cd off)
  let ?r = "cs - int (length cd)"
  let ?d = "digest (sha (seed @ big_endian_uint64 off))"
  show ?case
  proof (cases "?r \<le> 0")
    case True
    then show ?thesis
      by (subst chunk_loop.simps) (simp add: chunk_by_spec_nonpos)
  next
    case False
    with "1.prems" have pos: "0 \<le> off" "off + 32 * ((?r - 1) div 32) < 2 ^ 64"
      by (auto simp: offset_fits_def)
    from False have "0 \<le> (?r - 1) div 32" by simp
    with pos have lt: "off < 2 ^ 64" by linarith
    with pos have tb: "to_bytes8 off = Inr (big_endian_uint64 off)"
      by (simp add: to_bytes8_def)
    from False have less: "int (length cd) < cs" by simp
    show ?thesis
    proof (cases "32 \<le> ?r")
      case True
      have fits: "offset_fits (cs - int (length (cd @ ?d))) (off + 32)"
      proof -
        define q where "q = (?r - 33) div 32"
        have e: "(?r - 1) div 32 = q + 1" unfolding q_def by (rule div32_step)
        have l: "cs - int (length (cd @ ?d)) - 1 = ?r - 33" by (simp add: length_digest)
        from pos(2) have "off + 32 + 32 * q < 2 ^ 64" unfolding e by simp
        moreover from pos(1) have "0 \<le> off + 32" by simp
        ultimately show ?thesis unfolding offset_fits_def l q_def by blast
      qed
      from "1.IH"(1)[OF less tb True fits]
      have "chunk_loop sha seed cs (cd @ ?d) (off + 32)
          = Inr (cd @ ?d @ chunk_by_spec sha seed (off + 32) (?r - 32))"
        by (simp add: length_digest algebra_simps)
      then show ?thesis
        using less tb True
        by (subst chunk_loop.simps) (simp add: chunk_by_spec_step[OF True])
    next
      case small: False
      let ?t = "take (nat ?r) ?d"
      have lt': "length ?t = nat ?r" using small False by (simp add: length_digest)
      have fits: "offset_fits (cs - int (length (cd @ ?t))) (off + ?r)"
        using lt' False by (simp add: offset_fits_def)
      from "1.IH"(2)[OF less tb small fits]
      have "chunk_loop sha seed cs (cd @ ?t) (off + ?r)
          = Inr (cd @ ?t)"
        using lt' False by (simp add: chunk_by_spec_nonpos)
      then show ?thesis
        using less tb small False
        by (subst chunk_loop.simps) (simp add: chunk_by_spec_short)
    qed
  qed
qed

lemma chunk_loop_overflow:
  "\<not> offset_fits (cs - int (length cd)) off \<Longrightarrow>
   chunk_loop sha seed cs cd off = Inl OverflowError"
proof (induction sha seed cs cd off rule: chunk_loop.induct)
  case (1 sha seed cs cd off)
  let ?r = "cs - int (length cd)"
  let ?d = "digest (sha (seed @ big_endian_uint64 off))"
  from "1.prems" have r: "0 < ?r" and bad: "off < 0 \<or> 2 ^ 64 \<le> off + 32 * ((?r - 1) div 32)"
    by (auto simp: offset_fits_def)
  from r have less: "int (length cd) < cs" by simp
  show ?case
  proof (cases "0 \<le> off \<and> off < 2 ^ 64")
    case False
    then have "to_bytes8 off = Inl OverflowError" by (auto simp: to_bytes8_def)
    with less show ?thesis by (subst chunk_loop.simps) simp
  next
    case True
    then have tb: "to_bytes8 off = Inr (big_endian_uint64 off)" by (simp add: to_bytes8_def)
    from True bad have big: "2 ^ 64 \<le> off + 32 * ((?r - 1) div 32)" by simp
    have "0 < (?r - 1) div 32"
    proof (rule ccontr)
      assume "\<not> 0 < (?r - 1) div 32"
      then have "32 * ((?r - 1) div 32) \<le> 0" by simp
      with big True show False by linarith
    qed
    then have r33: "33 \<le> ?r" by (simp add: pos_imp_zdiv_pos_iff)
    then have r32: "32 \<le> ?r" by simp
    define q where "q = (?r - 33) div 32"
    have e: "(?r - 1) div 32 = q + 1" unfolding q_def by (rule div32_step)
    have l: "cs - int (length (cd @ ?d)) = ?r - 32" "cs - int (length (cd @ ?d)) - 1 = ?r - 33"
      by (simp_all add: length_digest)
    from big have "2 ^ 64 \<le> off + 32 + 32 * q" unfolding e by simp
    with r33 have nf: "\<not> offset_fits (cs - int (length (cd @ ?d))) (off + 32)"
      unfolding offset_fits_def l q_def by simp
    from "1.IH"(1)[OF less tb r32 nf] less tb r32 show ?thesis
      by (subst chunk_loop.simps) simp
  qed
qed

lemma chunk_loop_start:
  "chunk_loop sha seed cs [] off =
     (if offset_fits cs off then Inr (chunk_by_spec sha seed off cs) else Inl OverflowError)"
  using chunk_loop_spec[of cs "[]" off sha seed] chunk_loop_overflow[of cs "[]" off sha seed]
  by simp

lemma chunks_for_spec:
  "chunks_for b64encode sha seed cs os =
     (if list_all (offset_fits cs) os
      then Inr (map (\<lambda>off. b64encode (chunk_by_spec sha seed off cs)) os)
      else Inl OverflowError)"
  by (induction os) (simp_all add: chunk_loop_start)

text \<open>
  C3, as the code has it. For a challenge request whose \<^verbatim>\<open>epoch_seed\<close> is well-formed
  hex, each returned chunk, in input offset order, is the base64 encoding of the byte
  string of length \<open>max 0 chunk_size\<close> built by concatenating the SHA-256 digests of
  \<open>epoch_seed || big_endian_uint64 current_offset\<close> for
  \<open>current_offset = offset, offset + 32, ...\<close> and cutting the last digest to the
  residual. The chunks do not depend on the measured time, so two invocations on the
  same request give the same chunks. The chunks are returned, one per offset, exactly
  when the log call does not overflow and every offset fits; otherwise the response has
  no chunk and time 0.
\<close>

theorem challenge_chunks_by_spec:
  assumes "ChallengeRequest message_dict = Inr request"
    and "fromhex (epoch_seed request) = Inr seed"
  shows "(\<forall>i < length (chunks (handle_challenge b64encode sha elapsed_ms message_dict)).
            i < length (offsets request)
          \<and> chunks (handle_challenge b64encode sha elapsed_ms message_dict) ! i
              = b64encode (chunk_by_spec sha seed (offsets request ! i) (chunk_size request)))
       \<and> (\<forall>off. int (length (chunk_by_spec sha seed off (chunk_size request)))
                  = max 0 (chunk_size request))
       \<and> chunks (handle_challenge b64encode sha elapsed_ms message_dict)
           = chunks (handle_challenge b64encode sha elapsed_ms' message_dict)
       \<and> (list_all (offset_fits (chunk_size request)) (offsets request)
            \<and> \<not> chunk_size_kb_overflows (chunk_size request) \<longrightarrow>
            handle_challenge b64encode sha elapsed_ms message_dict
              = \<lparr>resp_challenge_id = challenge_id request,
                 chunks = map (\<lambda>off. b64encode (chunk_by_spec sha seed off (chunk_size request)))
                            (offsets request),
                 response_time_ms = elapsed_ms\<rparr>)
       \<and> (\<not> (list_all (offset_fits (chunk_size request)) (offsets request)
               \<and> \<not> chunk_size_kb_overflows (chunk_size request)) \<longrightarrow>
            handle_challenge b64encode sha elapsed_ms message_dict
              = \<lparr>resp_challenge_id = challenge_id request, chunks = [], response_time_ms = 0\<rparr>)"
proof -
  from assms(1) have cid: "msg_challenge_id message_dict = Some (challenge_id request)"
    by (auto simp: ChallengeRequest_def split: option.splits)
  show ?thesis
  proof (cases "list_all (offset_fits (chunk_size request)) (offsets request)
               \<and> \<not> chunk_size_kb_overflows (chunk_size request)")
    case True
    then show ?thesis
      using assms cid
      by (simp add: handle_challenge_def challenge_chunks_def chunks_for_spec
          length_chunk_by_spec)
  next
    case False
    then show ?thesis
      using assms cid
      by (auto simp: handle_challenge_def challenge_chunks_def chunks_for_spec
          length_chunk_by_spec)
  qed
qed

lemma hex_chars:
  "\<not> is_space CHR ''0''" "\<not> is_space CHR ''f''" "is_space CHR '' ''"
  "hex_value CHR ''0'' = Some 0" "hex_value CHR ''f'' = Some 15"
  by (simp_all add: is_space_def hex_value_def)

lemma fromhex_00ff: "fromhex ''00 ff'' = Inr [0, 255]"
  by (simp add: hex_chars)

theorem challenge_chunks_by_spec_witness:
  "handle_challenge length_text sum_hash 7 challenge_two_offsets
     = \<lparr>resp_challenge_id = ''ch1'',
        chunks = [replicate 40 CHR ''x'', replicate 40 CHR ''x''],
        response_time_ms = 7\<rparr>"
proof -
  let ?req = "\<lparr>challenge_id = ''ch1'', epoch_seed = ''00 ff'', offsets = [0, 40],
               chunk_size = 40, deadline_ms = 1000\<rparr>"
  have rq: "ChallengeRequest challenge_two_offsets = Inr ?req"
    by (simp add: ChallengeRequest_def challenge_two_offsets_def)
  have sd: "fromhex (epoch_seed ?req) = Inr [0, 255]" by (simp add: hex_chars)
  have fits: "list_all (offset_fits (chunk_size ?req)) (offsets ?req)"
    by (simp add: offset_fits_def)
  have nov: "\<not> chunk_size_kb_overflows (chunk_size ?req)"
    by (simp add: chunk_size_kb_overflows_def)
  from challenge_chunks_by_spec [OF rq sd, of length_text sum_hash 7 7] fits nov
  have h: "handle_challenge length_text sum_hash 7 challenge_two_offsets
      = \<lparr>resp_challenge_id = ''ch1'',
         chunks = [length_text (chunk_by_spec sum_hash [0, 255] 0 40),
                   length_text (chunk_by_spec sum_hash [0, 255] 40 40)],
         response_time_ms = 7\<rparr>"
      and l: "\<forall>off. int (length (chunk_by_spec sum_hash [0, 255] off 40)) = max 0 40"
    by simp_all
  from l have "length (chunk_by_spec sum_hash [0, 255] off 40) = 40" for off
    by (metis max.absorb2 nat_int nat_numeral zero_le_numeral of_nat_numeral)
  with h show ?thesis by (simp add: length_text_def)
qed

text \<open>
  C3 as stated gives every returned chunk the length \<open>chunk_size\<close>. For the request
  with chunk size \<open>-1\<close> the loop body never runs: the one chunk returned encodes the
  empty byte string.
\<close>

theorem challenge_negative_size_counterexample:
  "ChallengeRequest challenge_negative_size
     = Inr \<lparr>challenge_id = ''ch2'', epoch_seed = ''00 ff'', offsets = [0],
            chunk_size = - 1, deadline_ms = 1000\<rparr>
   \<and> fromhex ''00 ff'' = Inr [0, 255]
   \<and> chunks (handle_challenge length_text sum_hash 7 challenge_negative_size) = [length_text []]
   \<and> int (length ([] :: byte list)) \<noteq> - 1"
  by (simp add: ChallengeRequest_def challenge_negative_size_def hex_chars
      handle_challenge_def challenge_chunks_def chunk_size_kb_overflows_def
      chunk_loop.simps)

section \<open>Saving and reloading\<close>

lemma one_shard_eq: "one_shard =
   \<lparr>embedding_dim = 4, max_bytes = 1024 ^ 3,
    indices = [(''c1'', [(''shard_0'', \<lparr>index_dim = 4, max_elements = 1000000,
        index_items = [(0, [1, 0, 0, 0])]\<rparr>)])],
    id_maps = [(''c1'', [(''shard_0'', [(0, ''a'')])])],
    next_ids = [(''c1'', [(''shard_0'', 1)])],
    locks = [(''c1'', [''shard_0''])]\<rparr>"
  by (simp add: one_shard_def add_vectors_unfold)

lemmas save_unfold =
  save_all_def save_collection_def mkdir_def ancestors_def empty_dir_def save_shard_def
  write_file_def join_def parent_def Let_def

lemma one_shard_saved_eq: "save_all one_shard empty_dir = (None,
   \<lparr>dirs = [''c1''],
    files = [(''c1/shard_shard_0.bin'', IndexFile \<lparr>index_dim = 4, max_elements = 1000000,
                 index_items = [(0, [1, 0, 0, 0])]\<rparr>),
             (''c1/shard_shard_0_map.json'', MapFile [(0, ''a'')] (Some 1))]\<rparr>)"
  by (simp add: one_shard_eq save_unfold)

lemmas listdir_unfold = listdir_def child_name_def starts_with_def List.map_filter_def Let_def

lemma one_shard_listing:
  "listdir one_shard_saved [] = [(''c1'', None)]"
  "listdir one_shard_saved ''c1'' =
     [(''shard_shard_0.bin'', Some (IndexFile \<lparr>index_dim = 4, max_elements = 1000000,
                 index_items = [(0, [1, 0, 0, 0])]\<rparr>)),
      (''shard_shard_0_map.json'', Some (MapFile [(0, ''a'')] (Some 1)))]"
  by (simp_all add: one_shard_saved_def one_shard_saved_eq listdir_unfold)

lemma shard_names:
  "remove_all ''.bin'' (remove_all ''shard_'' (stem_bin ''shard_shard_0.bin'')) = ''0''"
  "remove_all ''.bin'' (remove_all ''shard_'' (stem_bin ''shard_0.bin'')) = ''0''"
  "remove_all ''.bin'' (remove_all ''shard_'' (stem_bin ''shard_default.bin'')) = ''default''"
  by (simp_all add: stem_bin_def starts_with_def)

lemmas load_unfold =
  VectorEngine_def load_all_def load_legacy_def load_collection_dir_def starts_with_def
  ends_with_def shard_names

lemmas load_shard_unfold =
  load_shard_def ensure_collection_def new_engine_def store2_def exists_path_def join_def Let_def

lemma one_shard_reloaded_eq: "one_shard_reloaded =
   \<lparr>embedding_dim = 4, max_bytes = 1024 ^ 3,
    indices = [(''c1'', [(''0'', \<lparr>index_dim = 4, max_elements = 1000000,
        index_items = [(0, [1, 0, 0, 0])]\<rparr>)])],
    id_maps = [(''c1'', [(''0'', [])])],
    next_ids = [(''c1'', [(''0'', 0)])],
    locks = []\<rparr>"
  apply (simp add: one_shard_reloaded_def load_unfold one_shard_listing)
  apply (simp add: load_shard_unfold one_shard_saved_def one_shard_saved_eq)
  done

lemma two_shards_eq: "two_shards =
   \<lparr>embedding_dim = 4, max_bytes = 1024 ^ 3,
    indices = [(''c1'', [(''shard_0'', \<lparr>index_dim = 4, max_elements = 1000000,
                                         index_items = [(0, [1, 0, 0, 0])]\<rparr>),
                         (''0'', \<lparr>index_dim = 4, max_elements = 1000000,
                                   index_items = [(0, [0, 1, 0, 0])]\<rparr>)])],
    id_maps = [(''c1'', [(''shard_0'', [(0, ''a'')]), (''0'', [(0, ''b'')])])],
    next_ids = [(''c1'', [(''shard_0'', 1), (''0'', 1)])],
    locks = [(''c1'', [''shard_0'', ''0''])]\<rparr>"
  by (simp add: two_shards_def one_shard_eq add_vectors_unfold)

lemma two_shards_saved_eq: "save_all two_shards empty_dir = (None,
   \<lparr>dirs = [''c1''],
    files = [(''c1/shard_shard_0.bin'', IndexFile \<lparr>index_dim = 4, max_elements = 1000000,
                 index_items = [(0, [1, 0, 0, 0])]\<rparr>),
             (''c1/shard_shard_0_map.json'', MapFile [(0, ''a'')] (Some 1)),
             (''c1/shard_0.bin'', IndexFile \<lparr>index_dim = 4, max_elements = 1000000,
                 index_items = [(0, [0, 1, 0, 0])]\<rparr>),
             (''c1/shard_0_map.json'', MapFile [(0, ''b'')] (Some 1))]\<rparr>)"
  by (simp add: two_shards_eq save_unfold)

lemma two_shards_listing:
  "listdir two_shards_saved [] = [(''c1'', None)]"
  "listdir two_shards_saved ''c1'' =
     [(''shard_shard_0.bin'', Some (IndexFile \<lparr>index_dim = 4, max_elements = 1000000,
                 index_items = [(0, [1, 0, 0, 0])]\<rparr>)),
      (''shard_shard_0_map.json'', Some (MapFile [(0, ''a'')] (Some 1))),
      (''shard_0.bin'', Some (IndexFile \<lparr>index_dim = 4, max_elements = 1000000,
                 index_items = [(0, [0, 1, 0, 0])]\<rparr>)),
      (''shard_0_map.json'', Some (MapFile [(0, ''b'')] (Some 1)))]"
  by (simp_all add: two_shards_saved_def two_shards_saved_eq listdir_unfold)

lemma two_shards_reloaded_eq: "two_shards_reloaded =
   \<lparr>embedding_dim = 4, max_bytes = 1024 ^ 3,
    indices = [(''c1'', [(''0'', \<lparr>index_dim = 4, max_elements = 1000000,
        index_items = [(0, [0, 1, 0, 0])]\<rparr>)])],
    id_maps = [(''c1'', [(''0'', [(0, ''b'')])])],
    next_ids = [(''c1'', [(''0'', 1)])],
    locks = []\<rparr>"
  apply (simp add: two_shards_reloaded_def load_unfold two_shards_listing)
  apply (simp add: load_shard_unfold two_shards_saved_def two_shards_saved_eq)
  done

lemma scenario1_saved_eq: "save_all scenario1 empty_dir = (None,
   \<lparr>dirs = [''c1''],
    files = [(''c1/shard_default.bin'', IndexFile \<lparr>index_dim = 4, max_elements = 1000000,
                 index_items = [(0, [1, 0, 0, 0]), (1, [0, 1, 0, 0]), (2, [0, 0, 1, 0])]\<rparr>),
             (''c1/shard_default_map.json'',
                MapFile [(0, ''a''), (1, ''b''), (2, ''c'')] (Some 3))]\<rparr>)"
  by (simp add: scenario1_eq save_unfold)

lemma scenario1_listing:
  "listdir scenario1_saved [] = [(''c1'', None)]"
  "listdir scenario1_saved ''c1'' =
     [(''shard_default.bin'', Some (IndexFile \<lparr>index_dim = 4, max_elements = 1000000,
                 index_items = [(0, [1, 0, 0, 0]), (1, [0, 1, 0, 0]), (2, [0, 0, 1, 0])]\<rparr>)),
      (''shard_default_map.json'',
         Some (MapFile [(0, ''a''), (1, ''b''), (2, ''c'')] (Some 3)))]"
  by (simp_all add: scenario1_saved_def scenario1_saved_eq listdir_unfold)

lemma scenario1_reloaded_eq: "scenario1_reloaded = scenario1\<lparr>locks := []\<rparr>"
  apply (simp add: scenario1_reloaded_def load_unfold scenario1_listing scenario1_eq)
  apply (simp add: load_shard_unfold scenario1_saved_def scenario1_saved_eq)
  done

lemma reload_totals:
  "get_total_vectors one_shard = 1" "get_total_vectors one_shard_reloaded = 1"
  "get_total_vectors two_shards = 2" "get_total_vectors two_shards_reloaded = 1"
  by (simp_all add: get_total_vectors_def get_current_count_def one_shard_eq
      one_shard_reloaded_eq two_shards_eq two_shards_reloaded_eq)

lemma reload_searches:
  "fst (search exact_knn left_as_is one_shard ''c1'' [1, 0, 0, 0] 1 (Some ''shard_0''))
     = Inr [(''a'', Number 1)]"
  "fst (search exact_knn left_as_is one_shard_reloaded ''c1'' [1, 0, 0, 0] 1 (Some ''shard_0''))
     = Inr []"
  "fst (search exact_knn left_as_is one_shard_reloaded ''c1'' [1, 0, 0, 0] 1 (Some ''0''))
     = Inr []"
  "fst (search exact_knn left_as_is two_shards ''c1'' [1, 0, 0, 0] 1 (Some ''shard_0''))
     = Inr [(''a'', Number 1)]"
  "fst (search exact_knn left_as_is two_shards_reloaded ''c1'' [1, 0, 0, 0] 1 (Some ''shard_0''))
     = Inr []"
  "fst (search exact_knn left_as_is two_shards_reloaded ''c1'' [1, 0, 0, 0] 1 (Some ''0''))
     = Inr [(''b'', Number 0)]"
  by (simp_all add: one_shard_eq one_shard_reloaded_eq two_shards_eq two_shards_reloaded_eq
      search_unfold normalize_unit)

text \<open>
  C2 at the engine \<open>one_shard\<close>: one vector \<open>a\<close> in shard \<open>shard_0\<close> of collection \<open>c1\<close>.
  \<^verbatim>\<open>save_all\<close> on an empty data directory raises nothing and writes
  \<open>c1/shard_shard_0.bin\<close> and \<open>c1/shard_shard_0_map.json\<close>. \<^verbatim>\<open>load_all\<close> computes the
  shard id of the index file by \<^verbatim>\<open>stem.replace("shard_", "")\<close>, which removes both
  occurrences: the index is stored under shard \<open>0\<close>, the map file looked for is
  \<open>c1/shard_0_map.json\<close>, which does not exist, and the shard gets an empty id-map.
  Before the save the search addressed to \<open>c1\<close>, \<open>shard_0\<close> returns \<open>a\<close>; after the
  reload it returns nothing, and so does the search addressed to shard \<open>0\<close>. With a
  second vector in shard \<open>0\<close> both index files are loaded under shard \<open>0\<close>, one replaces
  the other, and the total falls from 2 to 1. The engine with the default shard only is
  reloaded as it was, up to its locks.
\<close>

theorem reload_after_save:
  "fst (save_all one_shard empty_dir) = None
   \<and> map fst (files one_shard_saved) = [''c1/shard_shard_0.bin'', ''c1/shard_shard_0_map.json'']
   \<and> fst (search exact_knn left_as_is one_shard ''c1'' [1, 0, 0, 0] 1 (Some ''shard_0''))
       = Inr [(''a'', Number 1)]
   \<and> lookup2 (indices one_shard_reloaded) ''c1'' ''shard_0'' = None
   \<and> lookup2 (id_maps one_shard_reloaded) ''c1'' ''0'' = Some []
   \<and> fst (search exact_knn left_as_is one_shard_reloaded ''c1'' [1, 0, 0, 0] 1 (Some ''shard_0''))
       = Inr []
   \<and> fst (search exact_knn left_as_is one_shard_reloaded ''c1'' [1, 0, 0, 0] 1 (Some ''0''))
       = Inr []
   \<and> get_total_vectors one_shard = 1 \<and> get_total_vectors one_shard_reloaded = 1
   \<and> fst (save_all two_shards empty_dir) = None
   \<and> get_total_vectors two_shards = 2 \<and> get_total_vectors two_shards_reloaded = 1
   \<and> scenario1_reloaded = scenario1\<lparr>locks := []\<rparr>"
proof -
  have "lookup2 (indices one_shard_reloaded) ''c1'' ''shard_0'' = None"
      "lookup2 (id_maps one_shard_reloaded) ''c1'' ''0'' = Some []"
    by (simp_all add: one_shard_reloaded_eq lookup2_def)
  then show ?thesis
    by (simp add: one_shard_saved_eq two_shards_saved_eq one_shard_saved_def reload_totals
        reload_searches
        scenario1_reloaded_eq)
qed

end
